theory Spec2Isabelle
  imports Complex_Main
begin

section \<open>List engine: data model\<close>

text \<open>
  A raw list item as \<open>process_docx_body\<close> collects it: the dictionary with the keys
  \<open>text\<close>, \<open>level\<close>, \<open>type\<close> and \<open>element_index\<close>. The level is what \<open>int(...)\<close>
  returned for the \<open>ilvl\<close> attribute, so it is an unbounded integer.
\<close>

record list_item =
  item_text :: string
  level :: int
  ltype :: string
  element_index :: int

text \<open>\<open>group_list_items\<close> copies every item and adds the key \<open>num_id\<close>.\<close>

record flat_item = list_item +
  num_id :: string

text \<open>An item of a group: \<open>text\<close>, \<open>level\<close>, \<open>original_type\<close>, \<open>group_index\<close>.\<close>

record group_item =
  gi_text :: string
  gi_level :: int
  original_type :: string
  group_index :: nat

text \<open>A group: \<open>type\<close> (\<open>None\<close> until a level-0 item sets it), \<open>document_position\<close>, \<open>items\<close>.\<close>

record list_group =
  gtype :: "string option"
  document_position :: int
  items :: "group_item list"

section \<open>Stage A: \<open>group_list_items\<close>\<close>

text \<open>
  The state of the loop over \<open>flat_items\<close>: the groups already stored in
  \<open>grouped_lists\<close> (the key \<open>group_i\<close> is the position \<open>i\<close> in the list), the group
  under construction, and the two tracking variables.
\<close>

record group_state =
  grouped_lists :: "list_group list"
  current_group :: list_group
  current_num_id :: "string option"
  last_level :: "int option"

definition flatten_items :: "(string \<times> list_item list) list \<Rightarrow> flat_item list" where
  "flatten_items all_list_items =
     concat (map (\<lambda>(nid, its). map (\<lambda>it. list_item.extend it \<lparr>num_id = nid\<rparr>) its)
                 all_list_items)"

definition sort_flat_items :: "flat_item list \<Rightarrow> flat_item list" where
  "sort_flat_items flat_items = sort_key element_index flat_items"

definition new_group :: "int \<Rightarrow> list_group" where
  "new_group pos = \<lparr>gtype = None, document_position = pos, items = []\<rparr>"

definition init_state :: "flat_item list \<Rightarrow> group_state" where
  "init_state flat_items =
     \<lparr>grouped_lists = [],
      current_group = new_group (element_index (hd flat_items)),
      current_num_id = None,
      last_level = None\<rparr>"

text \<open>The flag \<open>start_new_group\<close> as the nested conditions of the loop body compute it.\<close>

definition start_new_group :: "group_state \<Rightarrow> flat_item \<Rightarrow> bool" where
  "start_new_group st it =
     (if level it = 0 \<and> items (current_group st) \<noteq> [] then
        (if last_level st = Some 0 then
           (if Some (num_id it) \<noteq> current_num_id st then True else False)
         else False)
      else False)"

definition finalize_group :: "group_state \<Rightarrow> flat_item \<Rightarrow> group_state" where
  "finalize_group st it =
     (let st1 = (if items (current_group st) \<noteq> []
                 then st\<lparr>grouped_lists := grouped_lists st @ [current_group st]\<rparr>
                 else st)
      in st1\<lparr>current_group := new_group (element_index it)\<rparr>)"

definition add_item :: "list_group \<Rightarrow> flat_item \<Rightarrow> list_group" where
  "add_item g it =
     (let new_item = \<lparr>gi_text = item_text it, gi_level = level it, original_type = ltype it,
                       group_index = length (items g)\<rparr>;
          g1 = g\<lparr>items := items g @ [new_item]\<rparr>
      in if gtype g1 = None \<and> level it = 0 then g1\<lparr>gtype := Some (ltype it)\<rparr> else g1)"

definition group_step :: "group_state \<Rightarrow> flat_item \<Rightarrow> group_state" where
  "group_step st it =
     (let st1 = (if start_new_group st it then finalize_group st it else st);
          st2 = st1\<lparr>current_num_id := Some (num_id it), last_level := Some (level it)\<rparr>
      in st2\<lparr>current_group := add_item (current_group st2) it\<rparr>)"

definition group_loop :: "flat_item list \<Rightarrow> group_state" where
  "group_loop flat_items = foldl group_step (init_state flat_items) flat_items"

definition group_sorted :: "flat_item list \<Rightarrow> list_group list" where
  "group_sorted flat_items =
     (if flat_items = [] then []
      else let st = group_loop flat_items
           in if items (current_group st) \<noteq> []
              then grouped_lists st @ [current_group st]
              else grouped_lists st)"

definition group_list_items :: "(string \<times> list_item list) list \<Rightarrow> list_group list" where
  "group_list_items all_list_items = group_sorted (sort_flat_items (flatten_items all_list_items))"

text \<open>
  Two auxiliary readings of the loop: the number of items held by a state, and the state
  reached after the first \<open>k\<close> items.
\<close>

definition total_items :: "group_state \<Rightarrow> nat" where
  "total_items st =
     sum_list (map (\<lambda>g. length (items g)) (grouped_lists st)) + length (items (current_group st))"



section \<open>Stage B: \<open>flatten_list_hierarchy\<close>\<close>

definition min_level :: "group_item list \<Rightarrow> int" where
  "min_level its = (if its \<noteq> [] then min_list (map gi_level its) else 0)"

definition dash_prefix :: "int \<Rightarrow> string" where
  "dash_prefix excess_depth = concat (replicate (nat excess_depth) ''--- '')"

definition flatten_item :: "int \<Rightarrow> group_item \<Rightarrow> group_item" where
  "flatten_item ml it =
     (let relative_level = gi_level it - ml
      in if relative_level > 1
         then it\<lparr>gi_text := dash_prefix (relative_level - 1) @ gi_text it,
                 gi_level := ml + 1\<rparr>
         else it)"

definition flatten_group :: "list_group \<Rightarrow> list_group" where
  "flatten_group g =
     (let ml = min_level (items g);
          flattened_group = \<lparr>gtype = gtype g, document_position = document_position g,
                              items = []\<rparr>
      in foldl (\<lambda>fg it. fg\<lparr>items := items fg @ [flatten_item ml it]\<rparr>)
               flattened_group (items g))"

definition flatten_list_hierarchy :: "list_group list \<Rightarrow> list_group list" where
  "flatten_list_hierarchy grouped = map flatten_group grouped"


section \<open>The grouping rule as the specification words it\<close>



section \<open>Sample inputs\<close>


definition mk_item :: "string \<Rightarrow> int \<Rightarrow> nat \<Rightarrow> group_item" where
  "mk_item t l i = \<lparr>gi_text = t, gi_level = l, original_type = ''bullet-list'', group_index = i\<rparr>"



text \<open>The group \<open>[(L0, A), (L1, B), (L2, C), (L1, D)]\<close>.\<close>

definition sample_group :: list_group where
  "sample_group =
     \<lparr>gtype = Some ''bullet-list'', document_position = 0,
      items = [mk_item ''A'' 0 0, mk_item ''B'' 1 1, mk_item ''C'' 2 2, mk_item ''D'' 1 3]\<rparr>"

definition sample_all_list_items :: "(string \<times> list_item list) list" where
  "sample_all_list_items =
     [(''1'', [\<lparr>item_text = ''a'', level = 0, ltype = ''bullet-list'', element_index = 0\<rparr>,
               \<lparr>item_text = ''c'', level = 0, ltype = ''bullet-list'', element_index = 2\<rparr>]),
      (''2'', [\<lparr>item_text = ''b'', level = 0, ltype = ''numbered-list'', element_index = 1\<rparr>])]"

section \<open>Strings\<close>

text \<open>
  A Python string is modelled as a list of characters, one \<open>char\<close> per code point; the
  tables below are Python's for the code points below 256.
\<close>

definition char_lower :: "char \<Rightarrow> char" where
  "char_lower c =
     (let n = of_char c :: nat
      in if (65 \<le> n \<and> n \<le> 90) \<or> (192 \<le> n \<and> n \<le> 222 \<and> n \<noteq> 215)
         then char_of (n + 32) else c)"

definition str_lower :: "string \<Rightarrow> string" where
  "str_lower s = map char_lower s"

section \<open>Image resolver: \<open>determine_image_display\<close>\<close>

text \<open>
  What \<open>determine_image_display\<close> reads of the drawing element: the local names of its
  descendants in the \<open>wp\<close> namespace, and the first \<open>positionH\<close> descendant with the text of
  its first \<open>align\<close> descendant and its \<open>relativeFrom\<close> attribute. The arguments \<open>drawing\<close>
  and \<open>namespaces\<close> are one optional value: the only caller passes both.
\<close>

record pos_h =
  align_text :: "string option"
  relative_from :: "string option"

record drawing =
  wp_elements :: "string list"
  position_h :: "pos_h option"

text \<open>
  What opening the image file gives: no file at the path, a file that the imaging library
  cannot open (it raises), or the pixel width and height.
\<close>

datatype image_file = NoFile | Unreadable | Pixels int int

definition wrap_elems :: "drawing \<Rightarrow> string list" where
  "wrap_elems d =
     filter (\<lambda>wrap_type. wrap_type \<in> set (wp_elements d))
       [''wrapSquare'', ''wrapTight'', ''wrapThrough'', ''wrapTopBottom'']"

definition explicit_alignment :: "pos_h \<Rightarrow> string \<Rightarrow> string" where
  "explicit_alignment ph float_alignment =
     (let fa1 = (case align_text ph of
                   None \<Rightarrow> float_alignment
                 | Some t \<Rightarrow>
                     if t \<noteq> [] then
                       (let align_val = str_lower t
                        in if align_val = ''left'' then ''start''
                           else if align_val = ''right'' then ''end''
                           else float_alignment)
                     else float_alignment)
      in case relative_from ph of
           None \<Rightarrow> fa1
         | Some rel_from \<Rightarrow>
             if rel_from \<in> set [''right'', ''rightMargin''] then ''end''
             else if rel_from \<in> set [''left'', ''leftMargin''] then ''start''
             else fa1)"

definition wrapping :: "drawing option \<Rightarrow> bool \<times> string option" where
  "wrapping dr =
     (case dr of
        None \<Rightarrow> (False, None)
      | Some d \<Rightarrow>
          if wrap_elems d \<noteq> [] then
            (True, Some (case position_h d of
                           None \<Rightarrow> ''end''
                         | Some ph \<Rightarrow> explicit_alignment ph ''end''))
          else (False, None))"

text \<open>
  The aspect ratio is a quotient of two integers compared with \<open>16/9\<close>; it is kept exact
  here. Python computes both sides in binary floating point, which gives the same
  comparison for every height below \<open>2^49\<close>.
\<close>

definition aspect_ratio :: "int \<Rightarrow> int \<Rightarrow> rat" where
  "aspect_ratio width height = (if height > 0 then of_int width / of_int height else 0)"

definition determine_image_display :: "image_file \<Rightarrow> drawing option \<Rightarrow> string \<times> string option" where
  "determine_image_display img dr =
     (let (is_wrapped, float_alignment) = wrapping dr
      in case img of
           Unreadable \<Rightarrow> (''standard'', None)
         | _ \<Rightarrow>
             (let (width, height) = (case img of Pixels w h \<Rightarrow> (w, h) | _ \<Rightarrow> (0, 0));
                  ar = aspect_ratio width height
              in if width > 1200 \<and> ar \<ge> 16 / 9 then (''wide'', float_alignment)
                 else if width < 800 \<or> is_wrapped then (''float'', float_alignment)
                 else (''standard'', float_alignment)))"

text \<open>Sample drawings: one without wrapping, one wrapped with conflicting position hints.\<close>

definition sample_plain_drawing :: drawing where
  "sample_plain_drawing = \<lparr>wp_elements = [''inline'', ''extent''], position_h = None\<rparr>"

definition sample_wrapped_drawing :: drawing where
  "sample_wrapped_drawing =
     \<lparr>wp_elements = [''anchor'', ''positionH'', ''align'', ''wrapSquare''],
      position_h = Some \<lparr>align_text = Some ''left'', relative_from = Some ''rightMargin''\<rparr>\<rparr>"

section \<open>More on strings\<close>

definition is_space :: "char \<Rightarrow> bool" where
  "is_space c =
     (let n = of_char c :: nat
      in (9 \<le> n \<and> n \<le> 13) \<or> (28 \<le> n \<and> n \<le> 32) \<or> n = 133 \<or> n = 160)"

definition str_strip :: "string \<Rightarrow> string" where
  "str_strip s = rev (dropWhile is_space (rev (dropWhile is_space s)))"

definition startswith :: "string \<Rightarrow> string \<Rightarrow> bool" where
  "startswith s pre = (take (length pre) s = pre)"

text \<open>The test \<open>sub in s\<close> on strings.\<close>

fun contains :: "string \<Rightarrow> string \<Rightarrow> bool" where
  "contains [] sub = (sub = [])"
| "contains (c # cs) sub = (if startswith (c # cs) sub then True else contains cs sub)"

text \<open>The decimal numeral of a natural number, as \<open>str(i)\<close> and an f-string print it.\<close>

definition digit_char :: "nat \<Rightarrow> char" where
  "digit_char d = char_of (48 + d)"

function str_nat :: "nat \<Rightarrow> string" where
  "str_nat n = (if n < 10 then [digit_char n] else str_nat (n div 10) @ [digit_char (n mod 10)])"
  by pat_completeness auto
termination
  by (relation "measure id") auto

declare str_nat.simps [simp del]

section \<open>Content blocks\<close>

text \<open>
  The dictionaries built by \<open>create_text_block\<close>, \<open>create_image_block\<close>,
  \<open>create_table_block\<close>, \<open>create_code_block\<close> and \<open>create_separator_block\<close>, told apart by
  their key \<open>type\<close>. \<open>OtherBlock\<close> stands for a dictionary with any other \<open>type\<close>.
  An image block also carries what \<open>add_image_block\<close> stores in it later.
\<close>

record text_block =
  text_type :: string
  tb_text :: string
  alignment :: "string option"

record image_block =
  path :: string
  caption :: "string option"
  display :: "string option"
  float_alignment :: "string option"
  original_path :: "string option"
  dimensions :: "(int \<times> int) option"

record table_block =
  rows :: "string list list"
  table_caption :: "string option"

record code_block =
  code :: string
  language :: string

datatype content_block =
  SeparatorBlock
  | ImageBlock image_block
  | TextBlock text_block
  | TableBlock table_block
  | CodeBlock code_block
  | OtherBlock string

definition block_type :: "content_block \<Rightarrow> string" where
  "block_type b =
     (case b of
        SeparatorBlock \<Rightarrow> ''separator''
      | ImageBlock _ \<Rightarrow> ''image''
      | TextBlock _ \<Rightarrow> ''text''
      | TableBlock _ \<Rightarrow> ''table''
      | CodeBlock _ \<Rightarrow> ''code''
      | OtherBlock t \<Rightarrow> t)"

section \<open>Publish phase 1: the block loop of \<open>create_storymap\<close>\<close>

text \<open>
  The remote story is an external service. What the loop asks of it is \<open>story.add\<close>, which
  stores a node and returns its id; the service chooses the id, and the model takes the
  letter \<open>n\<close> followed by the number of nodes stored so far.
\<close>

datatype text_style =
  BULLETLIST | NUMBERLIST | HEADING | HEADING2 | HEADING3 | QUOTE | LARGEPARAGRAPH | PARAGRAPH

datatype story_content =
  StoryText string text_style
  | StoryImage string "string option" string "string option"
  | StoryTable nat nat "string option"
  | StorySeparator

record publish_state =
  story_nodes :: "(string \<times> story_content) list"
  placeholder_ids :: "string \<rightharpoonup> string"
  parsed_blocks :: "string \<rightharpoonup> content_block"
  image_dimensions :: "string \<rightharpoonup> int \<times> int"
  blocks_added :: nat

definition story_add :: "publish_state \<Rightarrow> story_content \<Rightarrow> string \<times> publish_state" where
  "story_add st content =
     (let node_id = CHR ''n'' # str_nat (length (story_nodes st))
      in (node_id, st\<lparr>story_nodes := story_nodes st @ [(node_id, content)]\<rparr>))"

text \<open>The test \<open>not text_content or text_content.strip() == "" or text_content == "..."\<close>.\<close>

definition is_empty_content :: "string \<Rightarrow> bool" where
  "is_empty_content text_content =
     (text_content = [] \<or> str_strip text_content = [] \<or> text_content = ''...'')"

definition add_separator_block ::
  "publish_state \<Rightarrow> content_block \<Rightarrow> string \<Rightarrow> publish_state" where
  "add_separator_block st block placeholder_key =
     (let (node_id, st1) = story_add st StorySeparator
      in st1\<lparr>placeholder_ids := (placeholder_ids st1)(placeholder_key \<mapsto> node_id),
              parsed_blocks := (parsed_blocks st1)(node_id \<mapsto> block)\<rparr>)"

text \<open>
  \<open>extract_image_dimensions\<close> reads the file system; \<open>dims\<close> stands for it: the pixel size
  of the file at a path, or \<open>None\<close> when it cannot be read.
\<close>

definition add_image_block ::
  "(string \<Rightarrow> (int \<times> int) option) \<Rightarrow> publish_state \<Rightarrow> image_block \<Rightarrow> string
     \<Rightarrow> publish_state" where
  "add_image_block dims st block placeholder_key =
     (let image_path = path block;
          st0 = (case dims image_path of
                   None \<Rightarrow> st
                 | Some d \<Rightarrow> st\<lparr>image_dimensions := (image_dimensions st)(image_path \<mapsto> d)\<rparr>);
          (node_id, st1) = story_add st0
             (StoryImage image_path (caption block) [] (display block));
          stored = block\<lparr>original_path := Some image_path\<rparr>;
          stored1 = (case dims image_path of
                       None \<Rightarrow> stored
                     | Some d \<Rightarrow> stored\<lparr>dimensions := Some d\<rparr>)
      in st1\<lparr>placeholder_ids := (placeholder_ids st1)(placeholder_key \<mapsto> node_id),
              parsed_blocks := (parsed_blocks st1)(node_id \<mapsto> ImageBlock stored1)\<rparr>)"

definition text_style_of :: "string \<Rightarrow> text_style" where
  "text_style_of tt =
     (if tt = ''bullet-list'' then BULLETLIST
      else if tt = ''numbered-list'' then NUMBERLIST
      else if tt = ''h2'' then HEADING
      else if tt = ''h3'' then HEADING2
      else if tt = ''h4'' then HEADING3
      else if tt = ''quote'' then QUOTE
      else if tt = ''large-paragraph'' then LARGEPARAGRAPH
      else PARAGRAPH)"

definition add_text_block ::
  "publish_state \<Rightarrow> text_block \<Rightarrow> nat \<Rightarrow> string \<Rightarrow> publish_state" where
  "add_text_block st block i placeholder_key =
     (if is_empty_content (tb_text block) then st
      else
        (let placeholder_text = ''PLACEHOLDER_TEXT_'' @ str_nat i;
             (node_id, st1) = story_add st
                (StoryText placeholder_text (text_style_of (text_type block)))
         in st1\<lparr>placeholder_ids := (placeholder_ids st1)(placeholder_key \<mapsto> node_id),
                 parsed_blocks := (parsed_blocks st1)(node_id \<mapsto>
                   TextBlock \<lparr>text_type = text_type block, tb_text = tb_text block,
                              alignment = alignment block\<rparr>)\<rparr>))"

definition max_row_length :: "string list list \<Rightarrow> nat" where
  "max_row_length rs = foldl max 0 (map length rs)"

definition add_table_block ::
  "publish_state \<Rightarrow> table_block \<Rightarrow> string \<Rightarrow> publish_state" where
  "add_table_block st block placeholder_key =
     (let num_rows = length (rows block);
          num_cols = (if rows block \<noteq> [] then max_row_length (rows block) else 2);
          (node_id, st1) = story_add st (StoryTable num_rows num_cols (table_caption block))
      in st1\<lparr>placeholder_ids := (placeholder_ids st1)(placeholder_key \<mapsto> node_id),
              parsed_blocks := (parsed_blocks st1)(node_id \<mapsto> TableBlock block)\<rparr>)"

definition add_code_block ::
  "publish_state \<Rightarrow> code_block \<Rightarrow> nat \<Rightarrow> string \<Rightarrow> publish_state" where
  "add_code_block st block i placeholder_key =
     (let placeholder_text = ''PLACEHOLDER_CODE_'' @ str_nat i;
          (node_id, st1) = story_add st (StoryText placeholder_text PARAGRAPH)
      in st1\<lparr>placeholder_ids := (placeholder_ids st1)(placeholder_key \<mapsto> node_id),
              parsed_blocks := (parsed_blocks st1)(node_id \<mapsto>
                CodeBlock \<lparr>code = code block, language = language block\<rparr>)\<rparr>)"

text \<open>One iteration of \<open>for i, block in enumerate(content_blocks)\<close>.\<close>

definition add_block ::
  "(string \<Rightarrow> (int \<times> int) option) \<Rightarrow> publish_state \<Rightarrow> nat \<times> content_block
     \<Rightarrow> publish_state" where
  "add_block dims st ib =
     (let (i, block) = ib;
          placeholder_key = block_type block @ ''_'' @ str_nat i;
          count = (\<lambda>s. s\<lparr>blocks_added := blocks_added s + 1\<rparr>)
      in case block of
           SeparatorBlock \<Rightarrow> count (add_separator_block st block placeholder_key)
         | ImageBlock b \<Rightarrow> count (add_image_block dims st b placeholder_key)
         | TextBlock b \<Rightarrow>
             if is_empty_content (tb_text b) then st
             else count (add_text_block st b i placeholder_key)
         | TableBlock b \<Rightarrow> count (add_table_block st b placeholder_key)
         | CodeBlock b \<Rightarrow> count (add_code_block st b i placeholder_key)
         | OtherBlock _ \<Rightarrow> st)"

definition add_content_blocks ::
  "(string \<Rightarrow> (int \<times> int) option) \<Rightarrow> publish_state \<Rightarrow> content_block list
     \<Rightarrow> publish_state" where
  "add_content_blocks dims st content_blocks =
     foldl (add_block dims) st (enumerate 0 content_blocks)"

definition empty_publish_state :: publish_state where
  "empty_publish_state =
     \<lparr>story_nodes = [], placeholder_ids = Map.empty, parsed_blocks = Map.empty,
      image_dimensions = Map.empty, blocks_added = 0\<rparr>"

text \<open>The blocks for which the loop asks the story for a node.\<close>

definition creates_node :: "content_block \<Rightarrow> bool" where
  "creates_node b =
     (case b of
        TextBlock t \<Rightarrow> \<not> is_empty_content (tb_text t)
      | OtherBlock _ \<Rightarrow> False
      | _ \<Rightarrow> True)"

definition sample_empty_code :: content_block where
  "sample_empty_code = CodeBlock \<lparr>code = ''...'', language = ''txt''\<rparr>"

definition sample_blank_text :: content_block where
  "sample_blank_text = TextBlock \<lparr>text_type = ''paragraph'', tb_text = ''  '', alignment = None\<rparr>"

text \<open>The placeholder map holds no text block with empty content.\<close>

definition no_empty_text_recorded :: "publish_state \<Rightarrow> bool" where
  "no_empty_text_recorded st =
     (\<forall>node_id t. parsed_blocks st node_id = Some (TextBlock t) \<longrightarrow> \<not> is_empty_content (tb_text t))"

section \<open>Publish phase 2: \<open>update_storymap_content\<close>\<close>

text \<open>
  The remote document is a JSON tree. A JSON object is a list of key-value pairs in
  insertion order, as a Python dictionary keeps them.
\<close>

datatype json =
  JNull
  | JBool bool
  | JNum int
  | JStr string
  | JArr "json list"
  | JObj "(string \<times> json) list"

type_synonym json_object = "(string \<times> json) list"

definition dict_get :: "(string \<times> 'v) list \<Rightarrow> string \<Rightarrow> 'v option" where
  "dict_get d k = map_of d k"

fun dict_set :: "(string \<times> 'v) list \<Rightarrow> string \<Rightarrow> 'v \<Rightarrow> (string \<times> 'v) list" where
  "dict_set [] k v = [(k, v)]"
| "dict_set ((k', v') # d) k v =
     (if k' = k then (k, v) # d else (k', v') # dict_set d k v)"

text \<open>
  A node of the document: the value of its key \<open>type\<close>, and the objects under its keys
  \<open>data\<close> and \<open>config\<close> when it has them.
\<close>

record node =
  ntype :: "string option"
  ndata :: "json_object option"
  nconfig :: "json_object option"

datatype py_error = RuntimeError | AttributeError | TypeError | OverflowError

definition language_mapping :: "(string \<times> string) list" where
  "language_mapping =
     [(''text'', ''txt''), (''python'', ''py''), (''javascript'', ''js''),
      (''typescript'', ''ts''), (''java'', ''java''), (''csharp'', ''cs''),
      (''html'', ''html''), (''css'', ''css''), (''ruby'', ''rb''), (''php'', ''php''),
      (''c'', ''c''), (''cpp'', ''cpp''), (''go'', ''go''), (''sql'', ''sql''),
      (''shell'', ''sh''), (''xml'', ''xml''), (''json'', ''json''), (''yaml'', ''yaml''),
      (''markdown'', ''md''), (''r'', ''r''), (''swift'', ''swift''), (''kotlin'', ''kt'')]"

definition alignment_map :: "(string \<times> string) list" where
  "alignment_map =
     [(''center'', ''center''), (''right'', ''end''), (''justify'', ''justify''),
      (''left'', ''start'')]"

text \<open>The code branch: the node becomes a code node with a fresh data object.\<close>

definition to_code_node :: "node \<Rightarrow> code_block \<Rightarrow> node" where
  "to_code_node n block =
     (let code_content = code block;
          lang = str_lower (language block);
          mapped_language = (case dict_get language_mapping lang of
                               Some m \<Rightarrow> m | None \<Rightarrow> ''txt'')
      in n\<lparr>ntype := Some ''code'',
            ndata := Some [(''content'', JStr code_content), (''lang'', JStr mapped_language),
                           (''lineNumbers'', JBool True)]\<rparr>)"

text \<open>
  The text branch for a node whose text starts with the placeholder marker and whose
  block is a text block. \<open>None\<close> is the removal of the node from the node collection.
\<close>

definition replace_text :: "node \<Rightarrow> json_object \<Rightarrow> text_block \<Rightarrow> node option" where
  "replace_text n d block =
     (let text_content = tb_text block
      in if is_empty_content text_content then None
         else
           (let text_content1 = (if text_content = [] \<or> str_strip text_content = []
                                 then '' '' else text_content);
                d1 = dict_set d ''text'' (JStr text_content1);
                d2 = (case alignment block of
                        None \<Rightarrow> d1
                      | Some a \<Rightarrow>
                          if a \<noteq> [] then
                            (case dict_get alignment_map a of
                               Some m \<Rightarrow> dict_set d1 ''textAlignment'' (JStr m)
                             | None \<Rightarrow> d1)
                          else d1)
            in Some (n\<lparr>ndata := Some d2\<rparr>)))"

text \<open>
  The table branch. The value under \<open>cells\<close> is whatever the document holds there. The
  loop asks \<open>str(row_idx) not in cells\<close> for every row: on an object this looks for the
  key, on an array for an equal element, on a string for a substring, and on a number, a
  truth value or \<open>null\<close> it raises \<open>TypeError\<close>. Only an object accepts the assignment
  \<open>cells[str(row_idx)] = {}\<close>, and only an object can be read with \<open>cells[str(row_idx)]\<close>;
  on an array and on a string both raise \<open>TypeError\<close>. The row found in an object is read
  and written only when the block's row has a cell inside the column bound, and the write
  raises \<open>TypeError\<close> unless the row is an object.
\<close>

fun fill_row :: "json_object \<Rightarrow> nat \<Rightarrow> nat \<Rightarrow> string list \<Rightarrow> json_object" where
  "fill_row r num_cols col_idx [] = r"
| "fill_row r num_cols col_idx (cell_value # vs) =
     fill_row (if col_idx < num_cols
               then dict_set r (str_nat col_idx) (JObj [(''value'', JStr cell_value)])
               else r)
       num_cols (Suc col_idx) vs"

text \<open>Whether the inner loop over the cells of a row reaches its assignment.\<close>

definition writes_row :: "nat \<Rightarrow> string list \<Rightarrow> bool" where
  "writes_row num_cols row = (row \<noteq> [] \<and> 0 < num_cols)"

fun fill_cells ::
  "json \<Rightarrow> nat \<Rightarrow> nat \<Rightarrow> string list list \<Rightarrow> py_error + json" where
  "fill_cells cells num_cols row_idx [] = Inr cells"
| "fill_cells cells num_cols row_idx (row # rest) =
     (case cells of
        JObj c \<Rightarrow>
          (let c1 = (if dict_get c (str_nat row_idx) = None
                     then dict_set c (str_nat row_idx) (JObj []) else c)
           in if \<not> writes_row num_cols row
              then fill_cells (JObj c1) num_cols (Suc row_idx) rest
              else (case dict_get c1 (str_nat row_idx) of
                      Some (JObj r) \<Rightarrow>
                        fill_cells
                          (JObj (dict_set c1 (str_nat row_idx)
                                   (JObj (fill_row r num_cols 0 row))))
                          num_cols (Suc row_idx) rest
                    | _ \<Rightarrow> Inl TypeError))
      | JArr xs \<Rightarrow>
          if JStr (str_nat row_idx) \<in> set xs \<and> \<not> writes_row num_cols row
          then fill_cells cells num_cols (Suc row_idx) rest
          else Inl TypeError
      | JStr s \<Rightarrow>
          if contains s (str_nat row_idx) \<and> \<not> writes_row num_cols row
          then fill_cells cells num_cols (Suc row_idx) rest
          else Inl TypeError
      | _ \<Rightarrow> Inl TypeError)"

definition update_table :: "node \<Rightarrow> json_object \<Rightarrow> table_block \<Rightarrow> py_error + node" where
  "update_table n d block =
     (let num_rows = length (rows block);
          num_cols = (if rows block \<noteq> [] then max_row_length (rows block) else 0);
          d1 = dict_set d ''numRows'' (JNum (int num_rows));
          d2 = dict_set d1 ''numColumns'' (JNum (int num_cols));
          d3 = (if dict_get d2 ''cells'' = None then dict_set d2 ''cells'' (JObj []) else d2)
      in case fill_cells (the (dict_get d3 ''cells'')) num_cols 0 (rows block) of
           Inl e \<Rightarrow> Inl e
         | Inr cells \<Rightarrow>
             (let d4 = dict_set d3 ''cells'' cells;
                  d5 = (case table_caption block of
                          None \<Rightarrow> d4
                        | Some c \<Rightarrow> if c \<noteq> [] then dict_set d4 ''caption'' (JStr c) else d4)
              in Inr (n\<lparr>ndata := Some d5\<rparr>)))"

text \<open>
  The image branch. It is entered for every image node that the placeholder map tracks,
  whatever the type of the tracking block, and reads the block's keys \<open>caption\<close>,
  \<open>display\<close> and \<open>float_alignment\<close>. Of the blocks the program creates, image and table
  blocks have the key \<open>caption\<close> and only image blocks have the other two; a block of any
  other type is taken to have none of them.
\<close>

definition block_caption :: "content_block \<Rightarrow> string option" where
  "block_caption block =
     (case block of
        ImageBlock b \<Rightarrow> caption b
      | TableBlock b \<Rightarrow> table_caption b
      | _ \<Rightarrow> None)"

definition block_display :: "content_block \<Rightarrow> string option" where
  "block_display block = (case block of ImageBlock b \<Rightarrow> display b | _ \<Rightarrow> None)"

definition block_float_alignment :: "content_block \<Rightarrow> string option" where
  "block_float_alignment block =
     (case block of ImageBlock b \<Rightarrow> float_alignment b | _ \<Rightarrow> None)"

definition has_caption :: "content_block \<Rightarrow> bool" where
  "has_caption block = (case block_caption block of None \<Rightarrow> False | Some c \<Rightarrow> c \<noteq> [])"

definition has_float :: "content_block \<Rightarrow> bool" where
  "has_float block =
     (block_display block = Some ''float'' \<and>
      (case block_float_alignment block of None \<Rightarrow> False | Some a \<Rightarrow> a \<noteq> []))"

text \<open>The patched node and the number of replacements counted.\<close>

definition update_image :: "node \<Rightarrow> json_object \<Rightarrow> content_block \<Rightarrow> node \<times> nat" where
  "update_image n d block =
     (let (n1, k1) = (if has_caption block
                      then (n\<lparr>ndata := Some (dict_set d ''caption''
                                                (JStr (the (block_caption block))))\<rparr>,
                            1)
                      else (n, 0))
      in if has_float block then
           (let cfg = (case nconfig n1 of None \<Rightarrow> [] | Some c \<Rightarrow> c);
                cfg1 = dict_set cfg ''size'' (JStr ''float'');
                cfg2 = dict_set cfg1 ''floatAlignment''
                         (JStr (the (block_float_alignment block)))
            in (n1\<lparr>nconfig := Some cfg2\<rparr>, k1 + 1))
         else (n1, k1))"

text \<open>
  One iteration of the loop over \<open>main_data['nodes'].items()\<close>: the node as the iteration
  leaves it (\<open>None\<close> when it was removed) and the number of replacements it counted.
\<close>

definition is_code_placeholder :: "(string \<rightharpoonup> content_block) \<Rightarrow> string \<Rightarrow> node \<Rightarrow> bool" where
  "is_code_placeholder blocks node_id n =
     (ntype n = Some ''text'' \<and>
      (case blocks node_id of Some (CodeBlock _) \<Rightarrow> True | _ \<Rightarrow> False))"

definition has_text :: "node \<Rightarrow> bool" where
  "has_text n =
     (ntype n = Some ''text'' \<and>
      (case ndata n of None \<Rightarrow> False | Some d \<Rightarrow> dict_get d ''text'' \<noteq> None))"

definition process_node ::
  "(string \<rightharpoonup> content_block) \<Rightarrow> string \<Rightarrow> node \<Rightarrow> py_error + (node option \<times> nat)" where
  "process_node blocks node_id n =
     (if is_code_placeholder blocks node_id n then
        (case blocks node_id of
           Some (CodeBlock b) \<Rightarrow> Inr (Some (to_code_node n b), 1)
         | _ \<Rightarrow> Inr (Some n, 0))
      else if has_text n then
        (case dict_get (the (ndata n)) ''text'' of
           Some (JStr current_text) \<Rightarrow>
             if startswith current_text ''PLACEHOLDER_TEXT_'' then
               (case blocks node_id of
                  Some (TextBlock b) \<Rightarrow>
                    (case replace_text n (the (ndata n)) b of
                       None \<Rightarrow> Inr (None, 0)
                     | Some n1 \<Rightarrow> Inr (Some n1, 1))
                | _ \<Rightarrow> Inr (Some n, 0))
             else Inr (Some n, 0)
         | _ \<Rightarrow> Inl AttributeError)
      else if ntype n = Some ''table'' \<and> ndata n \<noteq> None then
        (case blocks node_id of
           Some (TableBlock b) \<Rightarrow>
             (case update_table n (the (ndata n)) b of
                Inl e \<Rightarrow> Inl e
              | Inr n1 \<Rightarrow> Inr (Some n1, 1))
         | _ \<Rightarrow> Inr (Some n, 0))
      else if ntype n = Some ''image'' \<and> ndata n \<noteq> None then
        (case blocks node_id of
           Some block \<Rightarrow>
             (let (n1, k) = update_image n (the (ndata n)) block in Inr (Some n1, k))
         | None \<Rightarrow> Inr (Some n, 0))
      else Inr (Some n, 0))"

text \<open>
  The loop. Removing a node changes the size of the dictionary that is being iterated,
  so the next step of the iteration raises \<open>RuntimeError\<close>, also when the removed node was
  the last one.
\<close>

fun update_nodes ::
  "(string \<rightharpoonup> content_block) \<Rightarrow> (string \<times> node) list \<Rightarrow> (string \<times> node) list \<Rightarrow> nat
     \<Rightarrow> py_error + ((string \<times> node) list \<times> nat)" where
  "update_nodes blocks [] done replacements = Inr (done, replacements)"
| "update_nodes blocks ((node_id, n) # rest) done replacements =
     (case process_node blocks node_id n of
        Inl e \<Rightarrow> Inl e
      | Inr (None, k) \<Rightarrow> Inl RuntimeError
      | Inr (Some n1, k) \<Rightarrow>
          update_nodes blocks rest (done @ [(node_id, n1)]) (replacements + k))"

definition update_storymap_content ::
  "(string \<times> node) list \<Rightarrow> (string \<rightharpoonup> content_block)
     \<Rightarrow> py_error + ((string \<times> node) list \<times> nat)" where
  "update_storymap_content nodes blocks = update_nodes blocks nodes [] 0"

text \<open>
  A document whose nodes hold final content: no text node is still tracked as the
  placeholder of a code block, and the text of every text node is a string that does
  not start with the placeholder marker.
\<close>

definition final_text :: "node \<Rightarrow> bool" where
  "final_text n =
     (has_text n \<longrightarrow>
        (case dict_get (the (ndata n)) ''text'' of
           Some (JStr t) \<Rightarrow> \<not> startswith t ''PLACEHOLDER_TEXT_''
         | _ \<Rightarrow> False))"

definition final_content :: "(string \<rightharpoonup> content_block) \<Rightarrow> (string \<times> node) list \<Rightarrow> bool" where
  "final_content blocks nodes =
     (\<forall>(node_id, n) \<in> set nodes. \<not> is_code_placeholder blocks node_id n \<and> final_text n)"

text \<open>
  Table nodes that the placeholder map tracks with a table block, and image nodes that it
  tracks with any block.
\<close>

definition tracked_table :: "(string \<rightharpoonup> content_block) \<Rightarrow> string \<Rightarrow> node \<Rightarrow> bool" where
  "tracked_table blocks node_id n =
     (ntype n = Some ''table'' \<and> ndata n \<noteq> None \<and>
      (case blocks node_id of Some (TableBlock _) \<Rightarrow> True | _ \<Rightarrow> False))"

definition tracked_image :: "(string \<rightharpoonup> content_block) \<Rightarrow> string \<Rightarrow> node \<Rightarrow> bool" where
  "tracked_image blocks node_id n =
     (ntype n = Some ''image'' \<and> ndata n \<noteq> None \<and> blocks node_id \<noteq> None)"

definition node_replacements :: "(string \<rightharpoonup> content_block) \<Rightarrow> string \<Rightarrow> node \<Rightarrow> nat" where
  "node_replacements blocks node_id n =
     (if tracked_table blocks node_id n then 1
      else if tracked_image blocks node_id n then
        (case blocks node_id of
           Some block \<Rightarrow>
             (if has_caption block then 1 else 0) + (if has_float block then 1 else 0)
         | None \<Rightarrow> 0)
      else 0)"

definition expected_replacements ::
  "(string \<rightharpoonup> content_block) \<Rightarrow> (string \<times> node) list \<Rightarrow> nat" where
  "expected_replacements blocks nodes =
     sum_list (map (\<lambda>(node_id, n). node_replacements blocks node_id n) nodes)"

text \<open>A document with one table node that already shows the content of its block.\<close>

definition sample_table_node :: node where
  "sample_table_node =
     \<lparr>ntype = Some ''table'',
      ndata = Some [(''numRows'', JNum 1), (''numColumns'', JNum 1),
                    (''cells'', JObj [(''0'', JObj [(''0'', JObj [(''value'', JStr ''x'')])])])],
      nconfig = None\<rparr>"

definition sample_table_blocks :: "string \<rightharpoonup> content_block" where
  "sample_table_blocks =
     [''n0'' \<mapsto> TableBlock \<lparr>rows = [[''x'']], table_caption = None\<rparr>]"

definition sample_text_node :: node where
  "sample_text_node =
     \<lparr>ntype = Some ''text'', ndata = Some [(''text'', JStr ''Hello'')], nconfig = None\<rparr>"

definition sample_text_blocks :: "string \<rightharpoonup> content_block" where
  "sample_text_blocks =
     [''n0'' \<mapsto> TextBlock \<lparr>text_type = ''paragraph'', tb_text = ''Hello'', alignment = None\<rparr>]"

text \<open>An image node that the placeholder map tracks with a captioned table block.\<close>

definition sample_image_node :: node where
  "sample_image_node = \<lparr>ntype = Some ''image'', ndata = Some [], nconfig = None\<rparr>"

definition sample_caption_blocks :: "string \<rightharpoonup> content_block" where
  "sample_caption_blocks =
     [''n0'' \<mapsto> TableBlock \<lparr>rows = [], table_caption = Some ''Figure''\<rparr>]"

text \<open>
  A node after the pass compared with the node before it: the same id, and the same
  node unless it is a tracked table or image node.
\<close>

definition same_but_patched ::
  "(string \<rightharpoonup> content_block) \<Rightarrow> string \<times> node \<Rightarrow> string \<times> node \<Rightarrow> bool" where
  "same_but_patched blocks old new =
     (fst new = fst old \<and>
      (\<not> tracked_table blocks (fst old) (snd old) \<and> \<not> tracked_image blocks (fst old) (snd old)
         \<longrightarrow> snd new = snd old))"

section \<open>Regular expressions\<close>

text \<open>
  The detector and the classifier use Python's \<open>re\<close> module. The patterns they use are
  built from character classes, sequence, alternation, greedy and lazy repetition, the
  word boundary and the end-of-line anchor. The matcher below is a backtracking matcher:
  it tries the alternatives in Python's order and hands every candidate end position to
  a continuation, so the first result is the match that \<open>re\<close> reports.
\<close>

definition is_word :: "char \<Rightarrow> bool" where
  "is_word c =
     (let n = of_char c :: nat
      in (48 \<le> n \<and> n \<le> 57) \<or> (65 \<le> n \<and> n \<le> 90) \<or> n = 95 \<or> (97 \<le> n \<and> n \<le> 122)
         \<or> n = 170 \<or> n = 178 \<or> n = 179 \<or> n = 181 \<or> n = 185 \<or> n = 186
         \<or> (188 \<le> n \<and> n \<le> 190) \<or> (192 \<le> n \<and> n \<le> 214)
         \<or> (216 \<le> n \<and> n \<le> 246) \<or> (248 \<le> n \<and> n \<le> 255))"

definition is_digit :: "char \<Rightarrow> bool" where
  "is_digit c = (let n = of_char c :: nat in 48 \<le> n \<and> n \<le> 57)"

definition char_upper :: "char \<Rightarrow> char" where
  "char_upper c =
     (let n = of_char c :: nat
      in if (97 \<le> n \<and> n \<le> 122) \<or> (224 \<le> n \<and> n \<le> 254 \<and> n \<noteq> 247)
         then char_of (n - 32) else c)"

text \<open>
  An item of a character class: a character, a range, \<open>\w\<close>, \<open>\s\<close> or \<open>\d\<close>. An atom
  is the dot or a class, negated or not; a literal character is a class of one item.
\<close>

datatype citem = C char | R char char | W | S | D

datatype atom = Dot | Cls bool "citem list"

definition in_range :: "char \<Rightarrow> char \<Rightarrow> char \<Rightarrow> bool" where
  "in_range lo hi c = ((of_char lo :: nat) \<le> of_char c \<and> (of_char c :: nat) \<le> of_char hi)"

fun item_match :: "bool \<Rightarrow> citem \<Rightarrow> char \<Rightarrow> bool" where
  "item_match ic (C x) c = (if ic then char_lower c = char_lower x else c = x)"
| "item_match ic (R lo hi) c =
     (if in_range lo hi c then True
      else if ic then in_range lo hi (char_lower c) \<or> in_range lo hi (char_upper c)
      else False)"
| "item_match ic W c = is_word c"
| "item_match ic S c = is_space c"
| "item_match ic D c = is_digit c"

fun atom_match :: "bool \<Rightarrow> atom \<Rightarrow> char \<Rightarrow> bool" where
  "atom_match ic Dot c = (c \<noteq> CHR 0x0A)"
| "atom_match ic (Cls negated its) c = (list_ex (\<lambda>it. item_match ic it c) its \<noteq> negated)"

datatype rx =
  Atom atom
  | Eps
  | Seq rx rx
  | Alt rx rx
  | Star rx
  | LazyStar rx
  | WordB
  | Eol

text \<open>
  Repetition. The body has to consume a character in every round; \<open>fuel\<close> is the length
  of the text still to be read, which bounds the number of rounds.
\<close>

type_synonym 'a cont = "char option \<Rightarrow> string \<Rightarrow> 'a option"

primrec star_greedy ::
  "(char option \<Rightarrow> string \<Rightarrow> 'a cont \<Rightarrow> 'a option) \<Rightarrow> nat \<Rightarrow> char option \<Rightarrow> string \<Rightarrow> 'a cont
     \<Rightarrow> 'a option" where
  "star_greedy body 0 = (\<lambda>p s k. k p s)"
| "star_greedy body (Suc fuel) =
     (\<lambda>p s k.
        case body p s (\<lambda>p' s'. if length s' < length s then star_greedy body fuel p' s' k
                                else None) of
          Some x \<Rightarrow> Some x
        | None \<Rightarrow> k p s)"

primrec star_lazy ::
  "(char option \<Rightarrow> string \<Rightarrow> 'a cont \<Rightarrow> 'a option) \<Rightarrow> nat \<Rightarrow> char option \<Rightarrow> string \<Rightarrow> 'a cont
     \<Rightarrow> 'a option" where
  "star_lazy body 0 = (\<lambda>p s k. k p s)"
| "star_lazy body (Suc fuel) =
     (\<lambda>p s k.
        case k p s of
          Some x \<Rightarrow> Some x
        | None \<Rightarrow>
            body p s (\<lambda>p' s'. if length s' < length s then star_lazy body fuel p' s' k
                               else None))"

definition word_at :: "char option \<Rightarrow> bool" where
  "word_at p = (case p of None \<Rightarrow> False | Some c \<Rightarrow> is_word c)"

definition next_char :: "string \<Rightarrow> char option" where
  "next_char s = (case s of [] \<Rightarrow> None | c # _ \<Rightarrow> Some c)"

text \<open>
  \<open>rx_match r ic ml p s k\<close>: match \<open>r\<close> at the start of \<open>s\<close>, where \<open>p\<close> is the character
  before \<open>s\<close>; \<open>ic\<close> is \<open>re.IGNORECASE\<close> and \<open>ml\<close> is \<open>re.MULTILINE\<close>.
\<close>

primrec rx_match ::
  "rx \<Rightarrow> bool \<Rightarrow> bool \<Rightarrow> char option \<Rightarrow> string \<Rightarrow> 'a cont \<Rightarrow> 'a option" where
  "rx_match (Atom a) = (\<lambda>ic ml p s k.
     case s of [] \<Rightarrow> None | c # cs \<Rightarrow> if atom_match ic a c then k (Some c) cs else None)"
| "rx_match Eps = (\<lambda>ic ml p s k. k p s)"
| "rx_match (Seq r1 r2) = (\<lambda>ic ml p s k.
     rx_match r1 ic ml p s (\<lambda>p' s'. rx_match r2 ic ml p' s' k))"
| "rx_match (Alt r1 r2) = (\<lambda>ic ml p s k.
     case rx_match r1 ic ml p s k of Some x \<Rightarrow> Some x | None \<Rightarrow> rx_match r2 ic ml p s k)"
| "rx_match (Star r) = (\<lambda>ic ml p s k. star_greedy (rx_match r ic ml) (length s) p s k)"
| "rx_match (LazyStar r) = (\<lambda>ic ml p s k. star_lazy (rx_match r ic ml) (length s) p s k)"
| "rx_match WordB = (\<lambda>ic ml p s k.
     if word_at p \<noteq> word_at (next_char s) then k p s else None)"
| "rx_match Eol = (\<lambda>ic ml p s k.
     if s = [] \<or> (ml \<and> next_char s = Some (CHR 0x0A)) \<or> (\<not> ml \<and> s = [CHR 0x0A])
     then k p s else None)"

text \<open>
  \<open>re.search\<close>: the first position, from left to right, where the pattern matches. The
  result is the text from the start of the match on, and the text after the match.
\<close>

fun search_from ::
  "rx \<Rightarrow> bool \<Rightarrow> bool \<Rightarrow> char option \<Rightarrow> string \<Rightarrow> (string \<times> string) option" where
  "search_from r ic ml p [] =
     (case rx_match r ic ml p [] (\<lambda>p' s'. Some s') of
        Some rest \<Rightarrow> Some ([], rest) | None \<Rightarrow> None)"
| "search_from r ic ml p (c # cs) =
     (case rx_match r ic ml p (c # cs) (\<lambda>p' s'. Some s') of
        Some rest \<Rightarrow> Some (c # cs, rest)
      | None \<Rightarrow> search_from r ic ml (Some c) cs)"

definition re_search :: "rx \<Rightarrow> bool \<Rightarrow> bool \<Rightarrow> string \<Rightarrow> bool" where
  "re_search r ic ml s = (search_from r ic ml None s \<noteq> None)"

text \<open>
  \<open>re.findall\<close>: the matches from left to right, each search starting where the last
  match ended (one character further after an empty match).
\<close>

fun findall_from ::
  "nat \<Rightarrow> rx \<Rightarrow> bool \<Rightarrow> bool \<Rightarrow> char option \<Rightarrow> string \<Rightarrow> string list" where
  "findall_from 0 r ic ml p s = []"
| "findall_from (Suc fuel) r ic ml p s =
     (case search_from r ic ml p s of
        None \<Rightarrow> []
      | Some (start, rest) \<Rightarrow>
          (let matched = take (length start - length rest) start
           in if matched = [] then
                (case start of
                   [] \<Rightarrow> [matched]
                 | c # cs \<Rightarrow> matched # findall_from fuel r ic ml (Some c) cs)
              else matched # findall_from fuel r ic ml (Some (last matched)) rest))"

definition re_findall :: "rx \<Rightarrow> bool \<Rightarrow> bool \<Rightarrow> string \<Rightarrow> string list" where
  "re_findall r ic ml s = findall_from (Suc (length s)) r ic ml None s"

text \<open>Pattern notation.\<close>

definition ch :: "char \<Rightarrow> rx" where
  "ch c = Atom (Cls False [C c])"

definition lit :: "string \<Rightarrow> rx" where
  "lit s = foldr (\<lambda>c r. Seq (ch c) r) s Eps"

definition seqs :: "rx list \<Rightarrow> rx" where
  "seqs rs = foldr Seq rs Eps"

definition alts :: "rx list \<Rightarrow> rx" where
  "alts rs = foldr Alt (butlast rs) (last rs)"

definition plus :: "rx \<Rightarrow> rx" where
  "plus r = Seq r (Star r)"

definition lazy_plus :: "rx \<Rightarrow> rx" where
  "lazy_plus r = Seq r (LazyStar r)"

definition opt :: "rx \<Rightarrow> rx" where
  "opt r = Alt r Eps"

definition cls :: "citem list \<Rightarrow> rx" where
  "cls its = Atom (Cls False its)"

definition ncls :: "citem list \<Rightarrow> rx" where
  "ncls its = Atom (Cls True its)"

definition ws :: rx where "ws = cls [S]"
definition wd :: rx where "wd = cls [W]"
definition dot :: rx where "dot = Atom Dot"

section \<open>\<open>json.loads\<close> as a recognizer\<close>

text \<open>
  \<open>check_json\<close> only asks whether \<open>json.loads\<close> accepts the text. The recognizer follows
  the decoder of Python's \<open>json\<close> module: values, objects with string keys, arrays,
  strings with escapes, numbers, the literals, and white space between tokens. \<open>fuel\<close>
  bounds the nesting; every call reads a character before it calls again, so the length
  of the text is enough.
\<close>

definition json_ws :: "char \<Rightarrow> bool" where
  "json_ws c = (c = CHR '' '' \<or> c = CHR 0x09 \<or> c = CHR 0x0A \<or> c = CHR 0x0D)"

definition skip_ws :: "string \<Rightarrow> string" where
  "skip_ws s = dropWhile json_ws s"

definition is_hex :: "char \<Rightarrow> bool" where
  "is_hex c =
     (is_digit c \<or> in_range (CHR ''a'') (CHR ''f'') c \<or> in_range (CHR ''A'') (CHR ''F'') c)"

text \<open>The rest of the text after a string whose opening quote has been read.\<close>

function json_string :: "string \<Rightarrow> string option" where
  "json_string [] = None"
| "json_string (c # cs) =
     (if c = CHR 0x22 then Some cs
      else if c = CHR 0x5C then
        (case cs of
           [] \<Rightarrow> None
         | e # es \<Rightarrow>
             if e \<in> set [CHR 0x22, CHR 0x5C, CHR ''/'', CHR ''b'', CHR ''f'', CHR ''n'',
                          CHR ''r'', CHR ''t'']
             then json_string es
             else if e = CHR ''u'' \<and> length es \<ge> 4 \<and> list_all is_hex (take 4 es)
             then json_string (drop 4 es)
             else None)
      else if (of_char c :: nat) < 32 then None
      else json_string cs)"
  by pat_completeness auto
termination
  by (relation "measure length") auto

definition skip_digits :: "string \<Rightarrow> string" where
  "skip_digits s = dropWhile is_digit s"

text \<open>The number pattern \<open>-?(0|[1-9]\d*)(\.\d+)?([eE][-+]?\d+)?\<close>.\<close>

definition json_number :: "string \<Rightarrow> string option" where
  "json_number s =
     (let s1 = (case s of c # cs \<Rightarrow> if c = CHR ''-'' then cs else s | [] \<Rightarrow> s)
      in case s1 of
           [] \<Rightarrow> None
         | d # ds \<Rightarrow>
             if \<not> is_digit d then None
             else
               (let s2 = (if d = CHR ''0'' then ds else skip_digits ds);
                    s3 = (case s2 of
                            p # f # fs \<Rightarrow>
                              if p = CHR ''.'' \<and> is_digit f then skip_digits fs else s2
                          | _ \<Rightarrow> s2);
                    s4 = (case s3 of
                            e # x # xs \<Rightarrow>
                              if e = CHR ''e'' \<or> e = CHR ''E'' then
                                (if is_digit x then skip_digits xs
                                 else if x = CHR ''+'' \<or> x = CHR ''-'' then
                                   (case xs of
                                      y # ys \<Rightarrow> if is_digit y then skip_digits ys else s3
                                    | [] \<Rightarrow> s3)
                                 else s3)
                              else s3
                          | _ \<Rightarrow> s3)
                in Some s4))"

definition strip_prefix :: "string \<Rightarrow> string \<Rightarrow> string option" where
  "strip_prefix pre s = (if startswith s pre then Some (drop (length pre) s) else None)"

datatype json_part = JValue | JMembers | JElements

fun json_parse :: "nat \<Rightarrow> json_part \<Rightarrow> string \<Rightarrow> string option" where
  "json_parse 0 part s = None"
| "json_parse (Suc fuel) JValue s =
     (case s of
        [] \<Rightarrow> None
      | c # cs \<Rightarrow>
          if c = CHR 0x22 then json_string cs
          else if c = CHR ''{'' then
            (case skip_ws cs of
               [] \<Rightarrow> None
             | d # ds \<Rightarrow>
                 if d = CHR ''}'' then Some ds
                 else if d = CHR 0x22 then json_parse fuel JMembers (d # ds)
                 else None)
          else if c = CHR ''['' then
            (case skip_ws cs of
               [] \<Rightarrow> None
             | d # ds \<Rightarrow>
                 if d = CHR '']'' then Some ds else json_parse fuel JElements (d # ds))
          else if startswith s ''null'' then strip_prefix ''null'' s
          else if startswith s ''true'' then strip_prefix ''true'' s
          else if startswith s ''false'' then strip_prefix ''false'' s
          else if json_number s \<noteq> None then json_number s
          else if startswith s ''NaN'' then strip_prefix ''NaN'' s
          else if startswith s ''Infinity'' then strip_prefix ''Infinity'' s
          else if startswith s ''-Infinity'' then strip_prefix ''-Infinity'' s
          else None)"
| "json_parse (Suc fuel) JMembers s =
     (case s of
        [] \<Rightarrow> None
      | c # cs \<Rightarrow>
          if c \<noteq> CHR 0x22 then None
          else
            (case json_string cs of
               None \<Rightarrow> None
             | Some s1 \<Rightarrow>
                 (case skip_ws s1 of
                    [] \<Rightarrow> None
                  | d # ds \<Rightarrow>
                      if d \<noteq> CHR '':'' then None
                      else
                        (case json_parse fuel JValue (skip_ws ds) of
                           None \<Rightarrow> None
                         | Some s2 \<Rightarrow>
                             (case skip_ws s2 of
                                [] \<Rightarrow> None
                              | e # es \<Rightarrow>
                                  if e = CHR ''}'' then Some es
                                  else if e = CHR '','' then
                                    json_parse fuel JMembers (skip_ws es)
                                  else None)))))"
| "json_parse (Suc fuel) JElements s =
     (case json_parse fuel JValue s of
        None \<Rightarrow> None
      | Some s1 \<Rightarrow>
          (case skip_ws s1 of
             [] \<Rightarrow> None
           | e # es \<Rightarrow>
               if e = CHR '']'' then Some es
               else if e = CHR '','' then json_parse fuel JElements (skip_ws es)
               else None))"

definition json_loads_ok :: "string \<Rightarrow> bool" where
  "json_loads_ok s =
     (case json_parse (Suc (length s)) JValue (skip_ws s) of
        None \<Rightarrow> False
      | Some rest \<Rightarrow> skip_ws rest = [])"

section \<open>Code language detector\<close>

definition endswith :: "string \<Rightarrow> string \<Rightarrow> bool" where
  "endswith s suf = startswith (rev s) (rev suf)"

definition count_char :: "char \<Rightarrow> string \<Rightarrow> nat" where
  "count_char c s = length (filter (\<lambda>x. x = c) s)"

definition dq :: char where "dq = CHR 0x22"
definition sq :: char where "sq = CHR 0x27"

text \<open>
  The number of patterns of a table that are found in the text: the counter \<open>matches\<close>
  of the checks. Every table is searched with the same flags.
\<close>

definition count_matches :: "rx list \<Rightarrow> bool \<Rightarrow> bool \<Rightarrow> string \<Rightarrow> nat" where
  "count_matches patterns ic ml s = length (filter (\<lambda>r. re_search r ic ml s) patterns)"

definition sql_patterns :: "rx list" where
  "sql_patterns =
     [seqs [lit ''SELECT'', plus ws, lazy_plus dot, plus ws, lit ''FROM''],
      seqs [lit ''INSERT'', plus ws, lit ''INTO''],
      seqs [lit ''UPDATE'', plus ws, lazy_plus dot, plus ws, lit ''SET''],
      seqs [lit ''CREATE'', plus ws, lit ''TABLE''],
      seqs [lit ''ALTER'', plus ws, lit ''TABLE''],
      seqs [lit ''DROP'', plus ws, lit ''TABLE''],
      seqs [lit ''JOIN'', plus ws, plus wd, plus ws, lit ''ON''],
      seqs [lit ''WHERE'', plus ws, plus wd, Star ws, cls [C CHR ''='', C CHR ''<'', C CHR ''>'']],
      seqs [lit ''ORDER'', plus ws, lit ''BY'', plus ws, plus wd],
      seqs [lit ''GROUP'', plus ws, lit ''BY'', plus ws, plus wd]]"

definition check_sql :: "string \<Rightarrow> string \<Rightarrow> string option" where
  "check_sql snippet code_lower =
     (if count_matches sql_patterns True True code_lower \<ge> 1 then Some ''sql'' else None)"

definition arcade_patterns :: "rx list" where
  "arcade_patterns =
     [lit ''Geometry('',
      seqs [alts [lit ''Feature'', lit ''FeatureSet''], ch CHR ''(''],
      lit ''When('',
      seqs [alts [lit ''Text'', lit ''Count'', lit ''Concatenate'', lit ''IIf'', lit ''IsEmpty''],
            ch CHR ''(''],
      lit ''$feature'',
      lit ''$map'',
      seqs [lit ''//'', Star dot, Eol]]"

definition check_arcade :: "string \<Rightarrow> string \<Rightarrow> string option" where
  "check_arcade snippet code_lower =
     (if count_matches arcade_patterns True True snippet \<ge> 1 then Some ''arcade'' else None)"

definition check_json :: "string \<Rightarrow> string option" where
  "check_json snippet =
     (if (startswith (str_strip snippet) ''{'' \<and> endswith (str_strip snippet) ''}'')
         \<or> (startswith (str_strip snippet) ''['' \<and> endswith (str_strip snippet) '']'')
      then (if json_loads_ok snippet then Some ''json'' else None)
      else None)"

definition python_patterns :: "rx list" where
  "python_patterns =
     [seqs [WordB, lit ''def'', plus ws, plus wd, Star ws, ch CHR ''(''],
      seqs [WordB, lit ''class'', plus ws, plus wd, Star ws, ch CHR '':''],
      seqs [lit ''import'', plus ws, plus (cls [W, C CHR ''.''])],
      seqs [lit ''from'', plus ws, plus (cls [W, C CHR ''.'']), plus ws, lit ''import''],
      seqs [lit ''if'', plus ws, lit ''__name__'', Star ws, lit ''=='', Star ws,
            cls [C sq, C dq], lit ''__main__'', cls [C sq, C dq]],
      seqs [lit ''arcpy.'', plus wd],
      seqs [ch CHR ''#'', LazyStar dot, Eol]]"

definition check_python :: "string \<Rightarrow> string \<Rightarrow> string option" where
  "check_python snippet code_lower =
     (if count_matches python_patterns True True snippet \<ge> 1 then Some ''py'' else None)"

definition visibility :: rx where
  "visibility = alts [lit ''public'', lit ''private'', lit ''protected'']"

definition csharp_patterns :: "rx list" where
  "csharp_patterns =
     [seqs [lit ''using'', plus ws, lit ''System;''],
      seqs [lit ''namespace'', plus ws, plus wd],
      seqs [visibility, plus ws, alts [lit ''class'', lit ''interface'']],
      seqs [visibility, plus ws, plus wd, plus ws, plus wd, Star ws, ch CHR ''(''],
      seqs [lit ''Console.'', alts [lit ''Write'', lit ''WriteLine'']]]"

definition check_csharp :: "string \<Rightarrow> string \<Rightarrow> string option" where
  "check_csharp snippet code_lower =
     (if count_matches csharp_patterns True True snippet \<ge> 1 then Some ''cs'' else None)"

definition js_patterns :: "rx list" where
  "js_patterns =
     [seqs [lit ''function'', plus ws, plus wd, Star ws, ch CHR ''(''],
      seqs [alts [lit ''const'', lit ''let'', lit ''var''], plus ws, plus wd, Star ws,
            ch CHR ''=''],
      lit ''=>'',
      seqs [lit ''console.'', alts [lit ''log'', lit ''warn'', lit ''error'']],
      seqs [lit ''document.get'', alts [lit ''Element'', lit ''ElementsByTagName'']],
      seqs [lit ''window.'', plus wd],
      seqs [lit ''new'', plus ws, plus wd, ch CHR ''('']]"

definition ts_patterns :: "rx list" where
  "ts_patterns =
     [seqs [lit ''interface'', plus ws, plus wd],
      seqs [lit ''type'', plus ws, plus wd, Star ws, ch CHR ''=''],
      seqs [ch CHR '':'', Star ws, plus wd,
            Star (cls [C CHR ''['', C CHR '']'', C CHR ''<'', C CHR ''>'']),
            alts [seqs [Star ws, ch CHR ''=''], ch CHR '')'']],
      seqs [ch CHR ''<'', plus wd, ch CHR ''>'', cls [C CHR ''('', C CHR ''['']],
      seqs [lit ''as'', plus ws, plus wd]]"

definition html_like :: rx where
  "html_like =
     seqs [ch CHR ''<'', plus wd,
           Star (seqs [plus ws, plus wd, ch CHR ''='', cls [C dq, C sq], lazy_plus dot,
                       cls [C dq, C sq]]),
           ch CHR ''>'']"

definition check_javascript_typescript :: "string \<Rightarrow> string \<Rightarrow> string option" where
  "check_javascript_typescript snippet code_lower =
     (let js_matches = count_matches js_patterns True True snippet;
          ts_matches = count_matches ts_patterns True True snippet
      in if js_matches \<ge> 1 \<or> ts_matches \<ge> 1 then
           (let has_html = re_search html_like False False snippet
            in if has_html then (if ts_matches \<ge> 1 then Some ''tsx'' else Some ''jsx'')
               else if ts_matches \<ge> 1 then Some ''ts''
               else Some ''js'')
         else None)"

definition css_patterns :: "rx list" where
  "css_patterns =
     [seqs [plus (cls [W, C CHR ''-'']), Star ws, ch CHR '':'', Star ws,
            plus (ncls [C CHR '';'']), ch CHR '';''],
      seqs [ch CHR ''.'', plus wd, Star (cls [W, C CHR ''-'']), Star ws, ch CHR ''{''],
      seqs [ch CHR ''#'', plus wd, Star (cls [W, C CHR ''-'']), Star ws, ch CHR ''{''],
      seqs [ch CHR ''@'', alts [lit ''media'', lit ''keyframes'', lit ''import'',
                                lit ''font-face'']],
      seqs [alts [lit ''margin'', lit ''padding'', lit ''color'', lit ''background'',
                  lit ''font'', lit ''display''], ch CHR '':'']]"

definition check_css :: "string \<Rightarrow> string \<Rightarrow> string option" where
  "check_css snippet code_lower =
     (if CHR ''{'' \<in> set snippet \<and> (CHR ''}'' \<in> set snippet \<or> CHR '';'' \<in> set snippet) then
        (let matches = count_matches css_patterns True False snippet
         in if matches \<ge> 2 \<or> (matches \<ge> 1 \<and> length snippet < 100) then Some ''css''
            else None)
      else None)"

definition tag_pattern :: rx where
  "tag_pattern =
     seqs [ch CHR ''<'', opt (ch CHR ''/''), cls [R CHR ''a'' CHR ''z''],
           Star (cls [R CHR ''a'' CHR ''z'', R CHR ''0'' CHR ''9'']), WordB,
           Star (ncls [C CHR ''>'']), ch CHR ''>'']"

definition attr_pattern :: rx where
  "attr_pattern =
     seqs [plus ws,
           alts [lit ''href'', lit ''src'', lit ''alt'', lit ''class'', lit ''id'', lit ''style''],
           ch CHR ''='', cls [C dq, C sq, C dq], Star (ncls [C sq, C dq]), cls [C dq, C sq]]"

definition html_patterns :: "rx list" where
  "html_patterns =
     [seqs [lit ''<!DOCTYPE'', plus ws, lit ''html''],
      alts [lit ''<html>'', seqs [lit ''<html'', plus ws]],
      seqs [ch CHR ''<'',
            alts [lit ''div'', lit ''span'', lit ''p'', lit ''a'', lit ''img'',
                  seqs [ch CHR ''h'', cls [R CHR ''1'' CHR ''6'']]],
            opt (seqs [plus ws, Star (ncls [C CHR ''>''])]),
            ch CHR ''>'']]"

definition check_html :: "string \<Rightarrow> string \<Rightarrow> string option" where
  "check_html snippet code_lower =
     (if CHR ''<'' \<in> set snippet \<and> CHR ''>'' \<in> set snippet then
        (let tags = re_findall tag_pattern True False snippet;
             open_brackets = int (count_char CHR ''<'' snippet);
             close_brackets = int (count_char CHR ''>'' snippet);
             attrs = re_findall attr_pattern True False snippet
         in if (length tags \<ge> 2 \<or> (length tags \<ge> 1 \<and> length attrs \<ge> 1))
               \<and> \<bar>open_brackets - close_brackets\<bar> \<le> 2
            then Some ''html''
            else if list_ex (\<lambda>r. re_search r True False snippet) html_patterns then Some ''html''
            else None)
      else None)"

definition keyword_sets :: "(string \<times> string list) list" where
  "keyword_sets =
     [(''py'', [''def'', ''import'', ''class'', ''self'', ''None'', ''True'', ''False'', ''if'',
                ''elif'', ''else'', ''for'', ''in'', ''try'', ''except'']),
      (''js'', [''function'', ''const'', ''let'', ''var'', ''return'', ''true'', ''false'',
                ''null'', ''undefined'', ''this'', ''new'']),
      (''sql'', [''select'', ''from'', ''where'', ''insert'', ''update'', ''delete'', ''create'',
                 ''drop'', ''alter'', ''join'']),
      (''cs'', [''using'', ''namespace'', ''public'', ''private'', ''class'', ''void'',
                ''string'', ''int'', ''bool'']),
      (''html'', [''div'', ''span'', ''class'', ''id'', ''style'', ''href'', ''src'']),
      (''css'', [''margin'', ''padding'', ''color'', ''background'', ''width'', ''height'',
                 ''font'']),
      (''arcade'', [''when'', ''feature'', ''geometry'', ''text'', ''count'', ''iif''])]"

text \<open>\<open>max(..., key=score)\<close>: the first entry with the greatest score.\<close>

definition best_match :: "(string \<times> nat) list \<Rightarrow> (string \<times> nat) option" where
  "best_match scores =
     (case scores of
        [] \<Rightarrow> None
      | x # xs \<Rightarrow> Some (foldl (\<lambda>b y. if snd y > snd b then y else b) x xs))"

definition check_keywords :: "string \<Rightarrow> string \<Rightarrow> string option" where
  "check_keywords snippet code_lower =
     (let words = re_findall (seqs [WordB, plus wd, WordB]) False False code_lower;
          language_scores =
            filter (\<lambda>(lang, matches). matches > 0)
              (map (\<lambda>(lang, keywords).
                      (lang, length (filter (\<lambda>word. word \<in> set keywords) words)))
                   keyword_sets)
      in case best_match language_scores of
           None \<Rightarrow> None
         | Some (lang, score) \<Rightarrow> if score \<ge> 2 then Some lang else None)"

definition check_text_about_code :: "string \<Rightarrow> string \<Rightarrow> string option" where
  "check_text_about_code snippet code_lower =
     (if (contains code_lower ''code''
            \<and> (contains code_lower ''style'' \<or> contains code_lower ''add''))
         \<or> (contains code_lower ''syntax'' \<or> contains code_lower ''example'')
      then
        (if contains code_lower ''python'' then Some ''py''
         else if contains code_lower ''javascript'' then Some ''js''
         else if contains code_lower ''html'' then Some ''html''
         else if contains code_lower ''css'' then Some ''css''
         else if contains code_lower ''sql'' then Some ''sql''
         else if contains code_lower ''c#'' \<or> contains code_lower ''csharp'' then Some ''cs''
         else None)
      else None)"

text \<open>The cascade: the first check that names a language decides.\<close>

definition detect_code_language :: "string \<Rightarrow> string" where
  "detect_code_language code_content =
     (if code_content = [] \<or> length (str_strip code_content) < 3 then ''txt''
      else
        (let snippet = str_strip code_content;
             code_lower = str_lower snippet
         in case check_sql snippet code_lower of Some lang \<Rightarrow> lang | None \<Rightarrow>
           (case check_arcade snippet code_lower of Some lang \<Rightarrow> lang | None \<Rightarrow>
           (case check_json snippet of Some lang \<Rightarrow> lang | None \<Rightarrow>
           (case check_python snippet code_lower of Some lang \<Rightarrow> lang | None \<Rightarrow>
           (case check_csharp snippet code_lower of Some lang \<Rightarrow> lang | None \<Rightarrow>
           (case check_javascript_typescript snippet code_lower of Some lang \<Rightarrow> lang | None \<Rightarrow>
           (case check_css snippet code_lower of Some lang \<Rightarrow> lang | None \<Rightarrow>
           (case check_html snippet code_lower of Some lang \<Rightarrow> lang | None \<Rightarrow>
           (case check_keywords snippet code_lower of Some lang \<Rightarrow> lang | None \<Rightarrow>
           (case check_text_about_code snippet code_lower of Some lang \<Rightarrow> lang | None \<Rightarrow>
              ''txt'')))))))))))"

text \<open>The four sample snippets.\<close>

definition sample_sql :: string where
  "sample_sql = ''SELECT * FROM t WHERE id=1''"

definition sample_json :: string where
  "sample_json = [CHR ''{'', dq, CHR ''a'', dq, CHR '':'', CHR ''1'', CHR ''}'']"

definition sample_python :: string where
  "sample_python = ''def f():'' @ [CHR 0x0A] @ ''    pass''"

definition sample_plain :: string where
  "sample_plain = ''hello world''"

section \<open>Paragraphs\<close>

text \<open>
  What the classifier and the run formatter read of a paragraph element. An attribute
  that is parsed with \<open>int(...)\<close> is kept as the parsed value, or as \<open>NotInt\<close> when the
  parse raises; a missing attribute is read as \<open>'0'\<close> in the code and is \<open>IntVal 0\<close> here.
\<close>

datatype attr_int = NotInt | IntVal int

text \<open>
  A run: whether it has a \<open>b\<close>, \<open>i\<close>, \<open>u\<close>, \<open>strike\<close> and \<open>br\<close> descendant, the value of
  its \<open>vertAlign\<close> and \<open>color\<close> elements when present, the text of each of its \<open>t\<close>
  elements (\<open>None\<close> for an element without text), its \<open>sz\<close> element when present, and
  the relationship id of the hyperlink element around it, if there is one.
\<close>

record run =
  run_bold :: bool
  run_italic :: bool
  run_underline :: bool
  run_strike :: bool
  run_vert_align :: "string option option"
  run_color :: "string option option"
  run_texts :: "string option list"
  run_br :: bool
  run_sz :: "attr_int option"
  run_hyperlink :: "string option option"

text \<open>
  A paragraph: the value of its \<open>pStyle\<close>, \<open>jc\<close> and \<open>outlineLvl\<close> elements when present,
  its first \<open>drawing\<close> element, whether it has a \<open>spacing\<close> element, and its runs.
\<close>

record docx_paragraph =
  p_style :: "string option option"
  p_drawing :: "drawing option"
  p_jc :: "string option option"
  p_outline_lvl :: "attr_int option"
  p_spacing :: bool
  p_runs :: "run list"

section \<open>Run formatter: \<open>extract_formatted_text\<close>\<close>

definition paragraph_alignment :: "docx_paragraph \<Rightarrow> string option" where
  "paragraph_alignment p =
     (case p_jc p of
        Some (Some alignment_val) \<Rightarrow> if alignment_val \<noteq> [] then Some alignment_val else None
      | _ \<Rightarrow> None)"

definition run_text :: "run \<Rightarrow> string" where
  "run_text r =
     concat (map (\<lambda>t. case t of None \<Rightarrow> [] | Some x \<Rightarrow> x) (run_texts r))
     @ (if run_br r then [CHR 0x0A] else [])"

definition run_has_text :: "run \<Rightarrow> bool" where
  "run_has_text r = list_ex (\<lambda>t. t \<noteq> None) (run_texts r)"

definition tag :: "string \<Rightarrow> string \<Rightarrow> string" where
  "tag name body = ''<'' @ name @ ''>'' @ body @ ''</'' @ name @ ''>''"

definition link_url :: "(string \<rightharpoonup> string) \<Rightarrow> run \<Rightarrow> string option" where
  "link_url hyperlink_rels r =
     (case run_hyperlink r of
        Some (Some rel_id) \<Rightarrow> if rel_id \<noteq> [] then hyperlink_rels rel_id else None
      | _ \<Rightarrow> None)"

definition format_run :: "(string \<rightharpoonup> string) \<Rightarrow> run \<Rightarrow> string" where
  "format_run hyperlink_rels r =
     (let t0 = run_text r;
          t1 = (case link_url hyperlink_rels r of
                  None \<Rightarrow> t0
                | Some url \<Rightarrow>
                    (let url1 = (if url \<noteq> [] \<and> \<not> (startswith url ''http://''
                                      \<or> startswith url ''https://'' \<or> startswith url ''#'')
                                 then ''https://'' @ url else url)
                     in ''<a href='' @ [dq] @ url1 @ [dq] @ '' rel='' @ [dq]
                        @ ''noopener noreferrer'' @ [dq] @ '' target='' @ [dq] @ ''_blank''
                        @ [dq] @ ''>'' @ t0 @ ''</a>''));
          t2 = (if run_vert_align r = Some (Some ''subscript'') then tag ''sub'' t1 else t1);
          t3 = (if run_vert_align r = Some (Some ''superscript'') then tag ''sup'' t2 else t2);
          t4 = (if run_italic r then tag ''em'' t3 else t3);
          t5 = (if run_bold r then tag ''strong'' t4 else t4);
          t6 = (if run_underline r then tag ''u'' t5 else t5);
          t7 = (if run_strike r then tag ''s'' t6 else t6)
      in case run_color r of
           Some (Some color_val) \<Rightarrow>
             if color_val \<noteq> [] \<and> str_lower color_val \<noteq> ''auto''
             then ''<span class='' @ [dq] @ ''sm-text-color-'' @ color_val @ [dq] @ ''>'' @ t7
                  @ ''</span>''
             else t7
         | _ \<Rightarrow> t7)"

definition text_parts :: "(string \<rightharpoonup> string) \<Rightarrow> docx_paragraph \<Rightarrow> string list" where
  "text_parts hyperlink_rels p =
     map (format_run hyperlink_rels) (filter (\<lambda>r. run_text r \<noteq> []) (p_runs p))"

definition extract_formatted_text ::
  "docx_paragraph \<Rightarrow> (string \<rightharpoonup> string) \<Rightarrow> string \<times> string option" where
  "extract_formatted_text p hyperlink_rels =
     (let has_text = list_ex run_has_text (p_runs p)
      in if \<not> has_text \<and> paragraph_alignment p \<noteq> None
         then ('' '', paragraph_alignment p)
         else (concat (text_parts hyperlink_rels p), paragraph_alignment p))"

section \<open>Block classifier: \<open>process_docx_paragraph\<close>\<close>

definition get_paragraph_outline_level :: "docx_paragraph \<Rightarrow> int option" where
  "get_paragraph_outline_level p =
     (case p_outline_lvl p of Some (IntVal l) \<Rightarrow> Some l | _ \<Rightarrow> None)"

definition check_is_bold :: "docx_paragraph \<Rightarrow> bool" where
  "check_is_bold p =
     (if p_runs p = [] then False
      else 2 * length (filter run_bold (p_runs p)) > length (p_runs p))"

text \<open>
  Font sizes are half-points divided by two, with Python's true division of an integer:
  the result is the binary64 number nearest to the exact quotient, a tie going to the
  even significand, and the division raises \<open>OverflowError\<close> when that number is beyond
  the range of binary64. A binary64 number is kept here as the rational number it
  denotes. \<open>round_to_double\<close> rounds a non-negative integer to 53 significant bits; halving
  the rounded number only lowers its exponent, so the quotient is half of it.
\<close>

function bit_length :: "int \<Rightarrow> nat" where
  "bit_length n = (if n \<le> 0 then 0 else Suc (bit_length (n div 2)))"
  by pat_completeness auto
termination
  by (relation "measure nat") auto

declare bit_length.simps [simp del]

definition round_to_double :: "int \<Rightarrow> int" where
  "round_to_double a =
     (if a < 2 ^ 53 then a
      else
        (let k = bit_length a - 53;
             q = a div 2 ^ k;
             r = a mod 2 ^ k;
             half = 2 ^ (k - 1)
         in (if half < r \<or> (r = half \<and> odd q) then q + 1 else q) * 2 ^ k))"

definition true_div2 :: "int \<Rightarrow> py_error + rat" where
  "true_div2 n =
     (let v = round_to_double \<bar>n\<bar>
      in if 2 ^ 1025 \<le> v then Inl OverflowError
         else Inr (of_int (sgn n * v) / 2))"

text \<open>
  The loop over the runs. The set \<open>sizes\<close> is a list without duplicates. A size that
  cannot be parsed is skipped; \<open>OverflowError\<close> is not among the exceptions the loop
  catches, so it leaves the function.
\<close>

fun collect_sizes :: "run list \<Rightarrow> rat list \<Rightarrow> py_error + rat list" where
  "collect_sizes [] sizes = Inr sizes"
| "collect_sizes (r # rs) sizes =
     (case run_sz r of
        Some (IntVal size_half_points) \<Rightarrow>
          (case true_div2 size_half_points of
             Inl e \<Rightarrow> Inl e
           | Inr s \<Rightarrow> collect_sizes rs (List.insert s sizes))
      | _ \<Rightarrow> collect_sizes rs sizes)"

definition get_font_size :: "docx_paragraph \<Rightarrow> py_error + rat option" where
  "get_font_size p =
     (case collect_sizes (p_runs p) [] of
        Inl e \<Rightarrow> Inl e
      | Inr sizes \<Rightarrow> Inr (case sizes of [s] \<Rightarrow> Some s | _ \<Rightarrow> None))"

text \<open>The test \<open>if font_size\<close>: a size that is there and is not zero.\<close>

definition truthy_size :: "rat option \<Rightarrow> bool" where
  "truthy_size fs = (case fs of None \<Rightarrow> False | Some s \<Rightarrow> s \<noteq> 0)"

definition check_heading_formatting :: "docx_paragraph \<Rightarrow> py_error + bool" where
  "check_heading_formatting p =
     (let is_bold = check_is_bold p
      in case get_font_size p of
           Inl e \<Rightarrow> Inl e
         | Inr font_size \<Rightarrow>
             (let has_large_font = (truthy_size font_size \<and> the font_size \<ge> 14);
                  has_special_spacing = p_spacing p
              in Inr (is_bold \<or> has_large_font \<or> has_special_spacing)))"

text \<open>\<open>re.findall(r'\d+', style_id)[0]\<close> read as a number, when there is a digit.\<close>

definition first_digits :: "string \<Rightarrow> string option" where
  "first_digits s =
     (case dropWhile (\<lambda>c. \<not> is_digit c) s of
        [] \<Rightarrow> None
      | d # ds \<Rightarrow> Some (takeWhile is_digit (d # ds)))"

definition int_of_digits :: "string \<Rightarrow> int" where
  "int_of_digits ds = foldl (\<lambda>n c. 10 * n + (int (of_char c) - 48)) 0 ds"

text \<open>\<open>str.isupper\<close>: there is a cased character and no cased character is lower case.\<close>

definition is_upper_char :: "char \<Rightarrow> bool" where
  "is_upper_char c =
     (let n = of_char c :: nat
      in (65 \<le> n \<and> n \<le> 90) \<or> (192 \<le> n \<and> n \<le> 214) \<or> (216 \<le> n \<and> n \<le> 222))"

definition is_lower_char :: "char \<Rightarrow> bool" where
  "is_lower_char c =
     (let n = of_char c :: nat
      in (97 \<le> n \<and> n \<le> 122) \<or> n = 170 \<or> n = 181 \<or> n = 186
         \<or> (223 \<le> n \<and> n \<le> 246) \<or> (248 \<le> n \<and> n \<le> 255))"

definition str_isupper :: "string \<Rightarrow> bool" where
  "str_isupper s = (list_ex is_upper_char s \<and> \<not> list_ex is_lower_char s)"

text \<open>
  The result of the classifier: nothing, what \<open>process_docx_image\<close> returns for the
  drawing of the paragraph (the image resolver is not part of this model), a block, or
  the exception that leaves the classifier.
  \<open>create_text_block\<close> also stores the alignment a second time under the key \<open>data\<close>;
  that copy is not kept here.
\<close>

datatype block_result =
  NoBlock | FromImageResolver drawing | Block content_block | Raised py_error

definition create_text_block :: "string \<Rightarrow> string \<Rightarrow> string option \<Rightarrow> content_block" where
  "create_text_block tt text_content al =
     TextBlock \<lparr>text_type = tt, tb_text = text_content, alignment = al\<rparr>"

definition create_code_block :: "string \<Rightarrow> content_block" where
  "create_code_block code_content =
     CodeBlock \<lparr>code = code_content, language = detect_code_language code_content\<rparr>"

definition sentence_end :: rx where
  "sentence_end = seqs [cls [C CHR ''.'', C CHR ''!'', C CHR ''?''], Eol]"

text \<open>The rules of the cascade, each giving a block or passing on.\<close>

definition by_outline_level :: "docx_paragraph \<Rightarrow> string \<Rightarrow> string option \<Rightarrow> content_block option" where
  "by_outline_level p txt al =
     (case get_paragraph_outline_level p of
        None \<Rightarrow> None
      | Some outline_level \<Rightarrow>
          if outline_level = 0 then Some (create_text_block ''h2'' txt al)
          else if outline_level = 1 then Some (create_text_block ''h3'' txt al)
          else if outline_level = 2 then Some (create_text_block ''h4'' txt al)
          else None)"

definition style_of :: "docx_paragraph \<Rightarrow> string option" where
  "style_of p = (case p_style p of Some (Some v) \<Rightarrow> Some v | _ \<Rightarrow> None)"

definition by_style_number :: "docx_paragraph \<Rightarrow> string \<Rightarrow> string option \<Rightarrow> content_block option" where
  "by_style_number p txt al =
     (case style_of p of
        None \<Rightarrow> None
      | Some style_id \<Rightarrow>
          if style_id = [] then None
          else
            (case first_digits style_id of
               None \<Rightarrow> None
             | Some digits \<Rightarrow>
                 (let heading_level = int_of_digits digits
                  in if heading_level = 1 then Some (create_text_block ''h2'' txt al)
                     else if heading_level = 2 then Some (create_text_block ''h3'' txt al)
                     else if heading_level = 3 then Some (create_text_block ''h4'' txt al)
                     else None)))"

definition by_font_size ::
  "docx_paragraph \<Rightarrow> string \<Rightarrow> string option \<Rightarrow> py_error + content_block option" where
  "by_font_size p txt al =
     (case check_heading_formatting p of
        Inl e \<Rightarrow> Inl e
      | Inr is_heading \<Rightarrow>
          if is_heading then
            (case get_font_size p of
               Inl e \<Rightarrow> Inl e
             | Inr font_size \<Rightarrow>
                 if truthy_size font_size then
                   (if the font_size \<ge> 20 then Inr (Some (create_text_block ''h2'' txt al))
                    else if the font_size \<ge> 16 then Inr (Some (create_text_block ''h3'' txt al))
                    else if the font_size \<ge> 14 then Inr (Some (create_text_block ''h4'' txt al))
                    else Inr None)
                 else Inr None)
          else Inr None)"

definition by_style_keyword :: "docx_paragraph \<Rightarrow> string \<Rightarrow> string option \<Rightarrow> content_block option" where
  "by_style_keyword p txt al =
     (case style_of p of
        None \<Rightarrow> None
      | Some style \<Rightarrow>
          if style = [] then None
          else
            (let style_lower = str_lower style
             in if contains style_lower ''title'' \<or> contains style_lower ''heading''
                   \<or> contains style_lower ''nadpis''
                then Some (create_text_block ''h2'' txt al)
                else if contains style_lower ''quote'' \<or> contains style_lower ''citation''
                then Some (create_text_block ''quote'' txt al)
                else if contains style_lower ''code'' \<or> contains style_lower ''source''
                then Some (create_code_block txt)
                else None))"

definition by_content :: "docx_paragraph \<Rightarrow> string \<Rightarrow> string option \<Rightarrow> content_block option" where
  "by_content p txt al =
     (if length (str_strip txt) < 50 then
        (if str_isupper (str_strip txt) then Some (create_text_block ''h2'' txt al)
         else if \<not> re_search sentence_end False False (str_strip txt) \<and> check_is_bold p
         then Some (create_text_block ''h3'' txt al)
         else None)
      else None)"

definition process_docx_paragraph :: "docx_paragraph \<Rightarrow> (string \<rightharpoonup> string) \<Rightarrow> block_result" where
  "process_docx_paragraph p hyperlink_rels =
     (case p_drawing p of
        Some d \<Rightarrow> FromImageResolver d
      | None \<Rightarrow>
          (let (txt, al) = extract_formatted_text p hyperlink_rels
           in if txt = [] \<or> str_strip txt = [] then
                (if al \<noteq> None \<and> al \<noteq> Some [] then Block (create_text_block ''paragraph'' [] al)
                 else NoBlock)
              else
                (case by_outline_level p txt al of Some b \<Rightarrow> Block b | None \<Rightarrow>
                (case by_style_number p txt al of Some b \<Rightarrow> Block b | None \<Rightarrow>
                (case by_font_size p txt al of
                   Inl e \<Rightarrow> Raised e | Inr (Some b) \<Rightarrow> Block b | Inr None \<Rightarrow>
                (case by_style_keyword p txt al of Some b \<Rightarrow> Block b | None \<Rightarrow>
                (case by_content p txt al of Some b \<Rightarrow> Block b | None \<Rightarrow>
                   Block (create_text_block ''paragraph'' txt al))))))))"




definition style_lower :: "docx_paragraph \<Rightarrow> string" where
  "style_lower p = (case style_of p of None \<Rightarrow> [] | Some style \<Rightarrow> str_lower style)"

text \<open>Sample runs and paragraphs.\<close>

definition plain_run :: "string \<Rightarrow> run" where
  "plain_run t =
     \<lparr>run_bold = False, run_italic = False, run_underline = False, run_strike = False,
      run_vert_align = None, run_color = None, run_texts = [Some t], run_br = False,
      run_sz = None, run_hyperlink = None\<rparr>"

definition empty_paragraph :: docx_paragraph where
  "empty_paragraph =
     \<lparr>p_style = None, p_drawing = None, p_jc = None, p_outline_lvl = None,
      p_spacing = False, p_runs = []\<rparr>"


text \<open>
  A paragraph whose two runs are set in \<open>2 ^ 53\<close> and \<open>2 ^ 53 + 1\<close> half-points, and a
  paragraph whose only run is set in \<open>10 ^ 400\<close> half-points.
\<close>

definition sample_huge_sizes :: docx_paragraph where
  "sample_huge_sizes =
     empty_paragraph\<lparr>p_runs := [(plain_run ''Hello'')\<lparr>run_sz := Some (IntVal (2 ^ 53))\<rparr>,
                                (plain_run ''World'')\<lparr>run_sz := Some (IntVal (2 ^ 53 + 1))\<rparr>]\<rparr>"

definition sample_overflow_size :: docx_paragraph where
  "sample_overflow_size =
     empty_paragraph\<lparr>p_runs := [(plain_run ''Hello'')\<lparr>run_sz := Some (IntVal (10 ^ 400))\<rparr>]\<rparr>"


text \<open>A centred paragraph without runs, and a centred paragraph that holds only a drawing.\<close>

definition sample_centred_empty :: docx_paragraph where
  "sample_centred_empty = empty_paragraph\<lparr>p_jc := Some (Some ''center'')\<rparr>"

definition sample_centred_drawing :: docx_paragraph where
  "sample_centred_drawing =
     empty_paragraph\<lparr>p_jc := Some (Some ''center''), p_drawing := Some sample_plain_drawing\<rparr>"

text \<open>A paragraph without alignment whose only run is bold and holds a line break.\<close>

definition sample_bold_break :: docx_paragraph where
  "sample_bold_break =
     empty_paragraph\<lparr>p_runs := [(plain_run [])\<lparr>run_texts := [], run_bold := True,
                                                   run_br := True\<rparr>]\<rparr>"

text \<open>
  Auxiliary notions for the table loop: the object written for one cell, a row of the
  cells object that the loop leaves as it is, and one round of the loop.
\<close>

definition cell :: "string \<Rightarrow> json" where
  "cell v = JObj [(''value'', JStr v)]"

text \<open>A row of the cells object that the table loop would leave as it is.\<close>

definition good_row :: "json_object \<Rightarrow> nat \<Rightarrow> nat \<Rightarrow> string list \<Rightarrow> bool" where
  "good_row c nc idx row =
     (dict_get c (str_nat idx) \<noteq> None \<and>
      (writes_row nc row \<longrightarrow>
         (\<exists>r. dict_get c (str_nat idx) = Some (JObj r) \<and> fill_row r nc 0 row = r)))"

text \<open>What one round of the table loop does to the cells object; \<open>None\<close> is the error.\<close>

definition row_step :: "json_object \<Rightarrow> nat \<Rightarrow> nat \<Rightarrow> string list \<Rightarrow> json_object option" where
  "row_step c nc i row =
     (let c1 = (if dict_get c (str_nat i) = None then dict_set c (str_nat i) (JObj []) else c)
      in if \<not> writes_row nc row then Some c1
         else (case dict_get c1 (str_nat i) of
                 Some (JObj r) \<Rightarrow> Some (dict_set c1 (str_nat i) (JObj (fill_row r nc 0 row)))
               | _ \<Rightarrow> None))"

section \<open>Stage A: nothing lost, nothing duplicated\<close>

lemma add_item_items:
  "items (add_item g it) =
     items g @ [\<lparr>gi_text = item_text it, gi_level = level it, original_type = ltype it,
                 group_index = length (items g)\<rparr>]"
  by (simp add: add_item_def Let_def)

lemma group_step_total: "total_items (group_step st it) = Suc (total_items st)"
  by (simp add: group_step_def total_items_def Let_def finalize_group_def add_item_items
      new_group_def)

lemma group_step_nonempty:
  "\<forall>g \<in> set (grouped_lists st). items g \<noteq> [] \<Longrightarrow>
   \<forall>g \<in> set (grouped_lists (group_step st it)). items g \<noteq> []"
  by (auto simp: group_step_def Let_def finalize_group_def)


lemma foldl_total: "total_items (foldl group_step st xs) = total_items st + length xs"
  by (induction xs arbitrary: st) (simp_all add: group_step_total)

lemma foldl_nonempty:
  "\<forall>g \<in> set (grouped_lists st). items g \<noteq> [] \<Longrightarrow>
   \<forall>g \<in> set (grouped_lists (foldl group_step st xs)). items g \<noteq> []"
proof (induction xs arbitrary: st)
  case Nil
  then show ?case by simp
next
  case (Cons x xs)
  from Cons.prems have "\<forall>g \<in> set (grouped_lists (group_step st x)). items g \<noteq> []"
    by (rule group_step_nonempty)
  then show ?case using Cons.IH by simp
qed

lemma group_sorted_count:
  "sum_list (map (\<lambda>g. length (items g)) (group_sorted xs)) = length xs"
proof (cases "xs = []")
  case True
  then show ?thesis by (simp add: group_sorted_def)
next
  case False
  have "total_items (init_state xs) = 0"
    by (simp add: total_items_def init_state_def new_group_def)
  then have "total_items (group_loop xs) = length xs"
    by (simp add: group_loop_def foldl_total)
  then show ?thesis using False
    by (auto simp: group_sorted_def Let_def total_items_def)
qed

lemma group_sorted_nonempty: "\<forall>g \<in> set (group_sorted xs). items g \<noteq> []"
proof -
  have "\<forall>g \<in> set (grouped_lists (group_loop xs)). items g \<noteq> []"
    unfolding group_loop_def by (rule foldl_nonempty) (simp add: init_state_def)
  then show ?thesis by (auto simp: group_sorted_def Let_def)
qed

lemma length_flatten_items:
  "length (flatten_items al) = sum_list (map (\<lambda>p. length (snd p)) al)"
  by (induction al) (auto simp: flatten_items_def)

text \<open>
  Claim C9. Stage A neither loses nor duplicates items: for every mapping of
  numbering-ids to lists of items, the groups returned by \<open>group_list_items\<close> hold together
  as many items as the input lists do, and each returned group has at least one item.
\<close>

theorem group_list_items_keeps_all_items:
  "sum_list (map (\<lambda>g. length (items g)) (group_list_items all_list_items))
     = sum_list (map (\<lambda>p. length (snd p)) all_list_items)
   \<and> (\<forall>g \<in> set (group_list_items all_list_items). items g \<noteq> [])"
  by (simp add: group_list_items_def group_sorted_count group_sorted_nonempty
      sort_flat_items_def length_flatten_items)

theorem group_list_items_keeps_all_items_witness:
  "sum_list (map (\<lambda>g. length (items g)) (group_list_items sample_all_list_items)) = 3
   \<and> group_list_items sample_all_list_items \<noteq> []
   \<and> items (hd (group_list_items sample_all_list_items)) \<noteq> []"
proof -
  have n: "sum_list (map (\<lambda>p. length (snd p)) sample_all_list_items) = 3"
    by (simp add: sample_all_list_items_def)
  with group_list_items_keeps_all_items [of sample_all_list_items]
  have "sum_list (map (\<lambda>g. length (items g)) (group_list_items sample_all_list_items)) = 3"
    by simp
  then have ne: "group_list_items sample_all_list_items \<noteq> []"
    by auto
  from ne have "hd (group_list_items sample_all_list_items)
      \<in> set (group_list_items sample_all_list_items)"
    by simp
  with group_list_items_keeps_all_items [of sample_all_list_items] n ne
  show ?thesis by simp
qed

section \<open>Stage A: when a new group starts\<close>











section \<open>Stage B: what flattening does\<close>

lemma foldl_append_items:
  "foldl (\<lambda>fg it. fg\<lparr>items := items fg @ [f it]\<rparr>) g0 xs
     = g0\<lparr>items := items g0 @ map f xs\<rparr>"
  by (induction xs arbitrary: g0) simp_all

lemma flatten_group_items:
  "items (flatten_group g) = map (flatten_item (min_level (items g))) (items g)"
  by (simp add: flatten_group_def Let_def foldl_append_items)

lemma flatten_group_meta:
  "gtype (flatten_group g) = gtype g"
  "document_position (flatten_group g) = document_position g"
  by (simp_all add: flatten_group_def Let_def foldl_append_items)

lemma min_level_le: "it \<in> set its \<Longrightarrow> min_level its \<le> gi_level it"
  by (auto simp: min_level_def min_list_Min)

lemma min_level_attained:
  assumes ne: "its \<noteq> []"
  shows "\<exists>it \<in> set its. gi_level it = min_level its"
proof -
  from ne have "Min (gi_level ` set its) \<in> gi_level ` set its"
    by (intro Min_in) auto
  then obtain it where "it \<in> set its" "gi_level it = Min (gi_level ` set its)"
    by auto
  with ne show ?thesis by (auto simp: min_level_def min_list_Min)
qed

lemma flatten_item_level_ge: "ml \<le> gi_level it \<Longrightarrow> ml \<le> gi_level (flatten_item ml it)"
  by (simp add: flatten_item_def Let_def)

lemma flatten_item_level_le: "gi_level (flatten_item ml it) \<le> ml + 1"
  by (simp add: flatten_item_def Let_def)

lemma flatten_item_idem: "flatten_item ml (flatten_item ml it) = flatten_item ml it"
  by (simp add: flatten_item_def Let_def)

lemma min_level_flatten:
  "min_level (map (flatten_item (min_level its)) its) = min_level its"
proof (cases "its = []")
  case True
  then show ?thesis by (simp add: min_level_def)
next
  case False
  let ?ml = "min_level its"
  let ?ys = "map (flatten_item ?ml) its"
  from False obtain it where it: "it \<in> set its" "gi_level it = ?ml"
    using min_level_attained by blast
  then have "flatten_item ?ml it = it" by (simp add: flatten_item_def Let_def)
  with it have "?ml \<in> set (map gi_level ?ys)" by force
  moreover have "\<forall>l \<in> set (map gi_level ?ys). ?ml \<le> l"
    by (auto intro: flatten_item_level_ge min_level_le)
  ultimately have "Min (set (map gi_level ?ys)) = ?ml"
    by (intro Min_eqI) auto
  with False show ?thesis by (simp add: min_level_def min_list_Min)
qed

lemma flatten_group_idem: "flatten_group (flatten_group g) = flatten_group g"
proof -
  have "items (flatten_group (flatten_group g)) = items (flatten_group g)"
    by (simp add: flatten_group_items min_level_flatten flatten_item_idem)
  then show ?thesis
    by (intro list_group.equality) (simp_all add: flatten_group_meta)
qed

lemma sample_group_flattened:
  "map gi_level (items (flatten_group sample_group)) = [0, 1, 1, 1]"
  "map gi_text (items (flatten_group sample_group)) = [''A'', ''B'', ''--- C'', ''D'']"
  by (simp_all add: flatten_group_def sample_group_def mk_item_def min_level_def
      flatten_item_def dash_prefix_def Let_def)

text \<open>
  Claim C2. For every group of a grouped list structure, Stage B takes the least level
  \<open>min_level\<close> among the group's items; an item whose \<open>level - min_level\<close> exceeds 1 gets
  the level \<open>min_level + 1\<close> and its text prefixed with \<open>"--- "\<close> repeated
  \<open>(level - min_level) - 1\<close> times; every other item, and the group's type and position,
  stay as they are. The group \<open>[(L0, A), (L1, B), (L2, C), (L1, D)]\<close> flattens to the levels
  \<open>[0, 1, 1, 1]\<close> with \<open>C\<close> turned into \<open>--- C\<close>.
\<close>

theorem flatten_list_hierarchy_rewrites_deep_items:
  "(\<forall>i < length grouped.
      items (flatten_list_hierarchy grouped ! i) =
        map (\<lambda>it. if gi_level it - min_level (items (grouped ! i)) > 1
                   then it\<lparr>gi_text :=
                             concat (replicate
                               (nat (gi_level it - min_level (items (grouped ! i)) - 1))
                               ''--- '') @ gi_text it,
                           gi_level := min_level (items (grouped ! i)) + 1\<rparr>
                   else it)
            (items (grouped ! i))
      \<and> gtype (flatten_list_hierarchy grouped ! i) = gtype (grouped ! i)
      \<and> document_position (flatten_list_hierarchy grouped ! i)
          = document_position (grouped ! i)
      \<and> (items (grouped ! i) \<noteq> [] \<longrightarrow>
           min_level (items (grouped ! i)) = Min (gi_level ` set (items (grouped ! i)))))
   \<and> length (flatten_list_hierarchy grouped) = length grouped
   \<and> map gi_level (items (hd (flatten_list_hierarchy [sample_group]))) = [0, 1, 1, 1]
   \<and> map gi_text (items (hd (flatten_list_hierarchy [sample_group])))
       = [''A'', ''B'', ''--- C'', ''D'']"
proof -
  have "flatten_item ml = (\<lambda>it. if gi_level it - ml > 1
          then it\<lparr>gi_text := concat (replicate (nat (gi_level it - ml - 1)) ''--- '')
                               @ gi_text it,
                  gi_level := ml + 1\<rparr>
          else it)" for ml
    by (rule ext) (simp add: flatten_item_def dash_prefix_def Let_def)
  then have rewrite: "items (flatten_group g) =
        map (\<lambda>it. if gi_level it - min_level (items g) > 1
                   then it\<lparr>gi_text :=
                             concat (replicate (nat (gi_level it - min_level (items g) - 1))
                               ''--- '') @ gi_text it,
                           gi_level := min_level (items g) + 1\<rparr>
                   else it)
            (items g)" for g
    by (simp only: flatten_group_items)
  have least: "items g \<noteq> [] \<longrightarrow> min_level (items g) = Min (gi_level ` set (items g))"
    for g :: list_group
    by (simp add: min_level_def min_list_Min)
  have nth: "flatten_list_hierarchy grouped ! i = flatten_group (grouped ! i)"
    if "i < length grouped" for i
    using that by (simp add: flatten_list_hierarchy_def)
  have sample: "hd (flatten_list_hierarchy [sample_group]) = flatten_group sample_group"
    by (simp add: flatten_list_hierarchy_def)
  have len: "length (flatten_list_hierarchy grouped) = length grouped"
    by (simp add: flatten_list_hierarchy_def)
  show ?thesis
    unfolding sample sample_group_flattened len
    using rewrite least flatten_group_meta by (simp add: nth)
qed

theorem flatten_list_hierarchy_rewrites_deep_items_witness:
  "(0::nat) < length [sample_group]
   \<and> items ([sample_group] ! 0) \<noteq> []
   \<and> min_level (items ([sample_group] ! 0)) = Min (gi_level ` set (items ([sample_group] ! 0)))
   \<and> gtype (flatten_list_hierarchy [sample_group] ! 0) = Some ''bullet-list''"
proof -
  have ne: "items ([sample_group] ! 0) \<noteq> []" by (simp add: sample_group_def)
  have "gtype (flatten_list_hierarchy [sample_group] ! 0) = gtype ([sample_group] ! 0)
    \<and> (items ([sample_group] ! 0) \<noteq> [] \<longrightarrow>
         min_level (items ([sample_group] ! 0))
           = Min (gi_level ` set (items ([sample_group] ! 0))))"
    using flatten_list_hierarchy_rewrites_deep_items [of "[sample_group]"] by simp
  with ne show ?thesis by (simp add: sample_group_def)
qed

text \<open>
  Claim C6. Stage B is idempotent: flattening a grouped list structure twice gives what
  flattening it once gives, and after one pass every item of every group is at most one
  level above the least level of its group.
\<close>

theorem flatten_list_hierarchy_idempotent:
  "flatten_list_hierarchy (flatten_list_hierarchy grouped) = flatten_list_hierarchy grouped
   \<and> (\<forall>g \<in> set (flatten_list_hierarchy grouped).
        \<forall>it \<in> set (items g). gi_level it \<le> min_level (items g) + 1)"
proof -
  have "gi_level it \<le> min_level (items g) + 1"
    if "g \<in> set (flatten_list_hierarchy grouped)" "it \<in> set (items g)" for g it
  proof -
    from that(1) obtain g0 where g: "g = flatten_group g0"
      by (auto simp: flatten_list_hierarchy_def)
    have ml: "min_level (items g) = min_level (items g0)"
      by (simp add: g flatten_group_items min_level_flatten)
    from that(2) obtain it0 where "it = flatten_item (min_level (items g0)) it0"
      by (auto simp: g flatten_group_items)
    then show ?thesis by (simp add: ml flatten_item_level_le)
  qed
  then show ?thesis
    by (simp add: flatten_list_hierarchy_def flatten_group_idem)
qed

theorem flatten_list_hierarchy_idempotent_witness:
  "flatten_list_hierarchy (flatten_list_hierarchy [sample_group])
     = flatten_list_hierarchy [sample_group]
   \<and> hd (flatten_list_hierarchy [sample_group]) \<in> set (flatten_list_hierarchy [sample_group])
   \<and> hd (items (hd (flatten_list_hierarchy [sample_group])))
       \<in> set (items (hd (flatten_list_hierarchy [sample_group])))
   \<and> gi_level (hd (items (hd (flatten_list_hierarchy [sample_group]))))
       \<le> min_level (items (hd (flatten_list_hierarchy [sample_group]))) + 1"
proof -
  have g: "hd (flatten_list_hierarchy [sample_group]) \<in> set (flatten_list_hierarchy [sample_group])"
    by (simp add: flatten_list_hierarchy_def)
  have "items (hd (flatten_list_hierarchy [sample_group])) \<noteq> []"
    by (simp add: flatten_list_hierarchy_def flatten_group_items sample_group_def)
  then have it: "hd (items (hd (flatten_list_hierarchy [sample_group])))
       \<in> set (items (hd (flatten_list_hierarchy [sample_group])))"
    by simp
  from flatten_list_hierarchy_idempotent [of "[sample_group]"] g it
  show ?thesis by blast
qed

section \<open>Image resolver: the display-mode rule\<close>

lemma aspect_ratio_wide:
  "(16 / 9 \<le> aspect_ratio w h) = (h > 0 \<and> 16 * h \<le> 9 * w)"
proof (cases "h > 0")
  case True
  then have pos: "(0::rat) < of_int h" by simp
  have "(16 / 9 \<le> (of_int w / of_int h :: rat)) = ((16::rat) * of_int h \<le> 9 * of_int w)"
    using pos by (simp add: field_simps)
  also have "\<dots> = ((of_int (16 * h) :: rat) \<le> of_int (9 * w))" by simp
  also have "\<dots> = (16 * h \<le> 9 * w)" by (simp only: of_int_le_iff)
  finally show ?thesis using True by (simp add: aspect_ratio_def)
next
  case False
  then show ?thesis by (simp add: aspect_ratio_def)
qed

lemma aspect_ratio_wide_normal:
  "(16 \<le> aspect_ratio w h * 9) = (h > 0 \<and> 16 * h \<le> 9 * w)"
  using aspect_ratio_wide [of w h] by simp

lemma wrap_elems_nonempty:
  "(wrap_elems d \<noteq> []) =
     (\<exists>t \<in> set [''wrapSquare'', ''wrapTight'', ''wrapThrough'', ''wrapTopBottom''].
        t \<in> set (wp_elements d))"
  by (simp add: wrap_elems_def filter_empty_conv)

lemma explicit_alignment_rule:
  "explicit_alignment ph ''end'' =
     (if relative_from ph \<in> {Some ''right'', Some ''rightMargin''} then ''end''
      else if relative_from ph \<in> {Some ''left'', Some ''leftMargin''} then ''start''
      else if map_option str_lower (align_text ph) = Some ''left'' then ''start''
      else ''end'')"
  by (cases "align_text ph"; cases "relative_from ph")
     (auto simp: explicit_alignment_def Let_def str_lower_def)

text \<open>
  Claim C8, as amended. For every image whose pixel dimensions are readable, the display
  mode is \<open>wide\<close> exactly when the width exceeds 1200 and the aspect ratio is at least
  16/9; otherwise \<open>float\<close> exactly when the width is below 800 or the drawing element
  holds a text-wrapping marker; otherwise \<open>standard\<close>. A float alignment is returned only
  when a text-wrapping marker is present (none is returned for an image that floats by
  its width alone): it is \<open>end\<close> by default, \<open>start\<close> for an explicit left alignment, and a
  relative position decides before the explicit alignment: right or right margin gives
  \<open>end\<close>, left or left margin gives \<open>start\<close>.
\<close>

theorem determine_image_display_rule:
  "determine_image_display (Pixels w h) dr =
     (let wrapped = (case dr of
                       None \<Rightarrow> False
                     | Some d \<Rightarrow>
                         \<exists>t \<in> set [''wrapSquare'', ''wrapTight'', ''wrapThrough'',
                                     ''wrapTopBottom'']. t \<in> set (wp_elements d));
          display = (if w > 1200 \<and> h > 0 \<and> 16 * h \<le> 9 * w then ''wide''
                     else if w < 800 \<or> wrapped then ''float''
                     else ''standard'');
          alignment =
            (case dr of
               None \<Rightarrow> None
             | Some d \<Rightarrow>
                 if \<not> wrapped then None
                 else Some (case position_h d of
                        None \<Rightarrow> ''end''
                      | Some ph \<Rightarrow>
                          if relative_from ph \<in> {Some ''right'', Some ''rightMargin''}
                          then ''end''
                          else if relative_from ph \<in> {Some ''left'', Some ''leftMargin''}
                          then ''start''
                          else if map_option str_lower (align_text ph) = Some ''left''
                          then ''start''
                          else ''end''))
      in (display, alignment))"
proof (cases dr)
  case None
  then show ?thesis
    by (simp add: determine_image_display_def wrapping_def aspect_ratio_wide_normal)
next
  case (Some d)
  show ?thesis
  proof (cases "wrap_elems d \<noteq> []")
    case True
    then have w: "\<exists>t \<in> set [''wrapSquare'', ''wrapTight'', ''wrapThrough'',
        ''wrapTopBottom'']. t \<in> set (wp_elements d)"
      using wrap_elems_nonempty [of d] by blast
    from True have wr: "wrapping dr = (True, Some (case position_h d of
                           None \<Rightarrow> ''end''
                         | Some ph \<Rightarrow> explicit_alignment ph ''end''))"
      by (simp add: wrapping_def Some)
    show ?thesis
      unfolding determine_image_display_def wr
      using w by (simp add: Some aspect_ratio_wide_normal explicit_alignment_rule Let_def
          split: option.split)
  next
    case False
    then have w: "\<not> (\<exists>t \<in> set [''wrapSquare'', ''wrapTight'', ''wrapThrough'',
        ''wrapTopBottom'']. t \<in> set (wp_elements d))"
      using wrap_elems_nonempty [of d] by blast
    from False have wr: "wrapping dr = (False, None)"
      by (simp add: wrapping_def Some)
    show ?thesis
      unfolding determine_image_display_def wr
      using w by (simp add: Some aspect_ratio_wide_normal Let_def)
  qed
qed

theorem determine_image_display_rule_witness:
  "determine_image_display (Pixels 1000 900) (Some sample_wrapped_drawing)
     = (''float'', Some ''end'')
   \<and> determine_image_display (Pixels 1600 900) (Some sample_plain_drawing)
     = (''wide'', None)
   \<and> determine_image_display (Pixels 1000 900) (Some sample_plain_drawing)
     = (''standard'', None)"
  using determine_image_display_rule [of 1000 900 "Some sample_wrapped_drawing"]
    determine_image_display_rule [of 1600 900 "Some sample_plain_drawing"]
    determine_image_display_rule [of 1000 900 "Some sample_plain_drawing"]
  by (simp add: sample_wrapped_drawing_def sample_plain_drawing_def)

text \<open>
  The claim as the specification states it gives every floating image an alignment,
  \<open>end\<close> by default. An image 500 pixels wide whose drawing has no text-wrapping marker
  floats, and no alignment is returned for it.
\<close>

theorem float_without_alignment_counterexample:
  "fst (determine_image_display (Pixels 500 400) (Some sample_plain_drawing)) = ''float''
   \<and> snd (determine_image_display (Pixels 500 400) (Some sample_plain_drawing)) \<noteq> Some ''end''"
  by (simp add: determine_image_display_def wrapping_def wrap_elems_def
      sample_plain_drawing_def aspect_ratio_def)

section \<open>Publish phase 1: which blocks get a node\<close>

lemma dropWhile_all: "(dropWhile P xs = []) = (\<forall>x \<in> set xs. P x)"
  by (induction xs) auto

lemma str_strip_empty: "(str_strip s = []) = (\<forall>c \<in> set s. is_space c)"
proof
  assume "str_strip s = []"
  then have "dropWhile is_space (rev (dropWhile is_space s)) = []"
    by (simp add: str_strip_def)
  then have all: "\<forall>c \<in> set (dropWhile is_space s). is_space c"
    by (simp add: dropWhile_all)
  have "dropWhile is_space s = []"
  proof (rule ccontr)
    assume ne: "dropWhile is_space s \<noteq> []"
    then have "\<not> is_space (hd (dropWhile is_space s))" by (rule hd_dropWhile)
    moreover from ne have "hd (dropWhile is_space s) \<in> set (dropWhile is_space s)" by simp
    ultimately show False using all by blast
  qed
  then show "\<forall>c \<in> set s. is_space c" by (simp add: dropWhile_all)
next
  assume "\<forall>c \<in> set s. is_space c"
  then show "str_strip s = []"
    by (auto simp: str_strip_def dest: set_dropWhileD)
qed

lemma story_add_nodes:
  "story_nodes (snd (story_add st c)) = story_nodes st @ [(fst (story_add st c), c)]"
  "parsed_blocks (snd (story_add st c)) = parsed_blocks st"
  "placeholder_ids (snd (story_add st c)) = placeholder_ids st"
  by (simp_all add: story_add_def Let_def)

lemma add_block_nodes:
  "length (story_nodes (add_block dims st (i, b)))
     = length (story_nodes st) + (if creates_node b then 1 else 0)"
  by (cases b)
     (simp_all add: add_block_def creates_node_def add_separator_block_def add_image_block_def
       add_text_block_def add_table_block_def add_code_block_def story_add_def Let_def
       split: option.split)

lemma add_block_keeps_invariant:
  "no_empty_text_recorded st \<Longrightarrow> no_empty_text_recorded (add_block dims st (i, b))"
  by (cases b)
     (auto simp: no_empty_text_recorded_def add_block_def add_separator_block_def
       add_image_block_def add_text_block_def add_table_block_def add_code_block_def
       story_add_def Let_def split: option.splits if_splits)

lemma foldl_add_block_nodes:
  "length (story_nodes (foldl (add_block dims) st ibs))
     = length (story_nodes st) + length (filter creates_node (map snd ibs))"
proof (induction ibs arbitrary: st)
  case Nil
  then show ?case by simp
next
  case (Cons ib ibs)
  obtain i b where ib: "ib = (i, b)" by (cases ib)
  show ?case by (simp add: Cons.IH ib add_block_nodes)
qed

lemma foldl_add_block_invariant:
  "no_empty_text_recorded st \<Longrightarrow> no_empty_text_recorded (foldl (add_block dims) st ibs)"
proof (induction ibs arbitrary: st)
  case Nil
  then show ?case by simp
next
  case (Cons ib ibs)
  obtain i b where ib: "ib = (i, b)" by (cases ib)
  from Cons.prems have "no_empty_text_recorded (add_block dims st (i, b))"
    by (rule add_block_keeps_invariant)
  then show ?case using Cons.IH by (simp add: ib)
qed

text \<open>
  Claim C4, as amended. During publish phase 1, a text block whose content is empty,
  consists of white space only, or is exactly \<open>...\<close> is skipped: the loop leaves the story,
  the placeholder ids and the placeholder map as they were, so no node is created for it
  and the placeholder map never holds such a text block. Code blocks are not filtered: a
  code block gets a placeholder node and an entry in the placeholder map whatever its
  content. Over a whole list of blocks the story gains one node for every block that is
  neither a skipped text block nor of an unknown type.
\<close>

theorem empty_text_blocks_create_no_node:
  "(is_empty_content s = (s = [] \<or> (\<forall>c \<in> set s. is_space c) \<or> s = ''...''))
   \<and> (is_empty_content (tb_text t) \<longrightarrow> add_block dims st (i, TextBlock t) = st)
   \<and> length (story_nodes (add_content_blocks dims st content_blocks))
       = length (story_nodes st) + length (filter creates_node content_blocks)
   \<and> (\<forall>node_id t'.
         parsed_blocks (add_content_blocks dims empty_publish_state content_blocks) node_id
           = Some (TextBlock t')
         \<longrightarrow> \<not> is_empty_content (tb_text t'))
   \<and> story_nodes (add_block dims st (i, CodeBlock c))
       = story_nodes st @ [(CHR ''n'' # str_nat (length (story_nodes st)),
                            StoryText (''PLACEHOLDER_CODE_'' @ str_nat i) PARAGRAPH)]
   \<and> parsed_blocks (add_block dims st (i, CodeBlock c))
        (CHR ''n'' # str_nat (length (story_nodes st)))
       = Some (CodeBlock \<lparr>code = code c, language = language c\<rparr>)"
proof -
  have a: "is_empty_content s = (s = [] \<or> (\<forall>c \<in> set s. is_space c) \<or> s = ''...'')"
    by (simp add: is_empty_content_def str_strip_empty)
  have b: "is_empty_content (tb_text t) \<longrightarrow> add_block dims st (i, TextBlock t) = st"
    by (simp add: add_block_def)
  have c: "length (story_nodes (add_content_blocks dims st content_blocks))
       = length (story_nodes st) + length (filter creates_node content_blocks)"
    by (simp add: add_content_blocks_def foldl_add_block_nodes)
  have "no_empty_text_recorded empty_publish_state"
    by (simp add: no_empty_text_recorded_def empty_publish_state_def)
  then have "no_empty_text_recorded
      (add_content_blocks dims empty_publish_state content_blocks)"
    unfolding add_content_blocks_def by (rule foldl_add_block_invariant)
  then have d: "\<forall>node_id t'.
         parsed_blocks (add_content_blocks dims empty_publish_state content_blocks) node_id
           = Some (TextBlock t')
         \<longrightarrow> \<not> is_empty_content (tb_text t')"
    by (simp add: no_empty_text_recorded_def)
  have e: "story_nodes (add_block dims st (i, CodeBlock c))
       = story_nodes st @ [(CHR ''n'' # str_nat (length (story_nodes st)),
                            StoryText (''PLACEHOLDER_CODE_'' @ str_nat i) PARAGRAPH)]"
    by (simp add: add_block_def add_code_block_def story_add_def Let_def)
  have f: "parsed_blocks (add_block dims st (i, CodeBlock c))
        (CHR ''n'' # str_nat (length (story_nodes st)))
       = Some (CodeBlock \<lparr>code = code c, language = language c\<rparr>)"
    by (simp add: add_block_def add_code_block_def story_add_def Let_def)
  from a b c d e f show ?thesis by blast
qed

theorem empty_text_blocks_create_no_node_witness:
  "is_empty_content ''  ''
   \<and> add_block (\<lambda>p. None) empty_publish_state (0, sample_blank_text) = empty_publish_state
   \<and> length (story_nodes (add_content_blocks (\<lambda>p. None) empty_publish_state
        [sample_blank_text, SeparatorBlock])) = 1"
proof -
  have sp: "\<forall>c \<in> set ''  ''. is_space c" by (simp add: is_space_def)
  have e: "is_empty_content ''  ''"
    using empty_text_blocks_create_no_node
      [of "''  ''" "\<lparr>text_type = ''paragraph'', tb_text = ''  '', alignment = None\<rparr>"
          "\<lambda>p. None" empty_publish_state 0 "[sample_blank_text, SeparatorBlock]"]
      sp by blast
  have cn: "filter creates_node [sample_blank_text, SeparatorBlock] = [SeparatorBlock]"
    using e by (simp add: creates_node_def sample_blank_text_def)
  from e cn empty_text_blocks_create_no_node
      [of "''  ''" "\<lparr>text_type = ''paragraph'', tb_text = ''  '', alignment = None\<rparr>"
          "\<lambda>p. None" empty_publish_state 0 "[sample_blank_text, SeparatorBlock]"]
  show ?thesis by (simp add: sample_blank_text_def empty_publish_state_def)
qed

text \<open>
  The claim as the specification states it also covers code blocks. A code block whose
  content is \<open>...\<close> is not skipped: the story gains a placeholder node and the
  placeholder map an entry.
\<close>

theorem empty_code_block_counterexample:
  "is_empty_content ''...''
   \<and> story_nodes (add_content_blocks (\<lambda>p. None) empty_publish_state [sample_empty_code])
       = [(''n0'', StoryText ''PLACEHOLDER_CODE_0'' PARAGRAPH)]
   \<and> parsed_blocks (add_content_blocks (\<lambda>p. None) empty_publish_state [sample_empty_code])
        ''n0'' = Some sample_empty_code"
  by code_simp

section \<open>Publish phase 2: running the pass on final content\<close>

lemma fill_cells_error: "fill_cells cells num_cols row_idx rs = Inl e \<Longrightarrow> e = TypeError"
proof (induction cells num_cols row_idx rs rule: fill_cells.induct)
  case (1 cells num_cols row_idx)
  then show ?case by simp
next
  case (2 cells num_cols row_idx row rest)
  then show ?case
    by (auto simp: Let_def split: json.splits option.splits if_splits)
qed

lemma update_table_error: "update_table n d b = Inl e \<Longrightarrow> e = TypeError"
  by (auto simp: update_table_def Let_def split: sum.splits dest: fill_cells_error)

lemma process_node_final:
  assumes "\<not> is_code_placeholder blocks node_id n" and "final_text n"
  shows "process_node blocks node_id n =
     (if tracked_table blocks node_id n then
        (case update_table n (the (ndata n)) (case blocks node_id of Some (TableBlock b) \<Rightarrow> b) of
           Inl e \<Rightarrow> Inl TypeError
         | Inr n1 \<Rightarrow> Inr (Some n1, 1))
      else if tracked_image blocks node_id n then
        Inr (Some (fst (update_image n (the (ndata n)) (the (blocks node_id)))),
             node_replacements blocks node_id n)
      else Inr (Some n, 0))"
proof (cases "has_text n")
  case True
  with assms(2) obtain t where t: "dict_get (the (ndata n)) ''text'' = Some (JStr t)"
    "\<not> startswith t ''PLACEHOLDER_TEXT_''"
    by (auto simp: final_text_def split: option.splits json.splits)
  from True have "ntype n = Some ''text''" by (simp add: has_text_def)
  then have "\<not> tracked_table blocks node_id n" "\<not> tracked_image blocks node_id n"
    by (simp_all add: tracked_table_def tracked_image_def)
  with assms(1) True t show ?thesis by (simp add: process_node_def)
next
  case False
  show ?thesis
  proof (cases "tracked_table blocks node_id n")
    case True
    then obtain b where b: "blocks node_id = Some (TableBlock b)"
      by (auto simp: tracked_table_def split: option.splits content_block.splits)
    from True have ty: "ntype n = Some ''table''" "ndata n \<noteq> None"
      by (simp_all add: tracked_table_def)
    show ?thesis
      using assms(1) False True b ty
      by (auto simp: process_node_def split: sum.splits dest: update_table_error)
  next
    case nt: False
    show ?thesis
    proof (cases "tracked_image blocks node_id n")
      case True
      then obtain b where b: "blocks node_id = Some b"
        by (auto simp: tracked_image_def)
      from True have ty: "ntype n = Some ''image''" "ndata n \<noteq> None"
        by (simp_all add: tracked_image_def)
      have "snd (update_image n (the (ndata n)) b) = node_replacements blocks node_id n"
        using True nt b by (simp add: node_replacements_def update_image_def Let_def)
      then show ?thesis
        using assms(1) False True nt b ty
        by (simp add: process_node_def split_beta)
    next
      case ni: False
      show ?thesis
        using assms(1) False nt ni
        by (auto simp: process_node_def tracked_table_def tracked_image_def
            split: option.splits content_block.splits)
    qed
  qed
qed

lemma update_nodes_final:
  assumes "final_content blocks rest"
  shows "update_nodes blocks rest done r = Inl TypeError
     \<or> (\<exists>nodes'. update_nodes blocks rest done r
            = Inr (done @ nodes', r + expected_replacements blocks rest)
          \<and> list_all2 (same_but_patched blocks) rest nodes')"
  using assms
proof (induction rest arbitrary: "done" r)
  case Nil
  then show ?case by (simp add: expected_replacements_def)
next
  case (Cons a rest)
  obtain node_id n where a: "a = (node_id, n)" by (cases a)
  from Cons.prems have fin: "\<not> is_code_placeholder blocks node_id n" "final_text n"
    and rest: "final_content blocks rest"
    by (auto simp: final_content_def a)
  note pn = process_node_final [OF fin]
  consider (err) "process_node blocks node_id n = Inl TypeError"
    | (ok) n1 where "process_node blocks node_id n = Inr (Some n1, node_replacements blocks node_id n)"
      "same_but_patched blocks (node_id, n) (node_id, n1)"
  proof (cases "tracked_table blocks node_id n")
    case True
    then have nr: "node_replacements blocks node_id n = 1"
      by (simp add: node_replacements_def)
    show ?thesis
    proof (cases "update_table n (the (ndata n))
                    (case blocks node_id of Some (TableBlock b) \<Rightarrow> b)")
      case (Inl e)
      with pn True have "process_node blocks node_id n = Inl TypeError" by simp
      then show ?thesis by (rule err)
    next
      case (Inr n1)
      with pn True nr
      have "process_node blocks node_id n = Inr (Some n1, node_replacements blocks node_id n)"
        by simp
      moreover from True have "same_but_patched blocks (node_id, n) (node_id, n1)"
        by (simp add: same_but_patched_def)
      ultimately show ?thesis by (rule ok)
    qed
  next
    case False
    show ?thesis
    proof (cases "tracked_image blocks node_id n")
      case True
      with pn False have "process_node blocks node_id n
          = Inr (Some (fst (update_image n (the (ndata n)) (the (blocks node_id)))),
                 node_replacements blocks node_id n)"
        by simp
      moreover from True have "same_but_patched blocks (node_id, n)
          (node_id, fst (update_image n (the (ndata n)) (the (blocks node_id))))"
        by (simp add: same_but_patched_def)
      ultimately show ?thesis by (rule ok)
    next
      case ni: False
      then have "node_replacements blocks node_id n = 0"
        using False by (simp add: node_replacements_def)
      with pn False ni
      have "process_node blocks node_id n = Inr (Some n, node_replacements blocks node_id n)"
        by simp
      moreover have "same_but_patched blocks (node_id, n) (node_id, n)"
        by (simp add: same_but_patched_def)
      ultimately show ?thesis by (rule ok)
    qed
  qed
  then show ?case
  proof cases
    case err
    then show ?thesis by (simp add: a)
  next
    case (ok n1)
    from Cons.IH [OF rest, of "done @ [(node_id, n1)]" "r + node_replacements blocks node_id n"]
    show ?thesis
    proof
      assume "update_nodes blocks rest (done @ [(node_id, n1)])
                (r + node_replacements blocks node_id n) = Inl TypeError"
      then show ?thesis using ok by (simp add: a)
    next
      assume "\<exists>nodes'. update_nodes blocks rest (done @ [(node_id, n1)])
                (r + node_replacements blocks node_id n)
              = Inr ((done @ [(node_id, n1)]) @ nodes',
                     r + node_replacements blocks node_id n + expected_replacements blocks rest)
            \<and> list_all2 (same_but_patched blocks) rest nodes'"
      then obtain nodes' where
        "update_nodes blocks rest (done @ [(node_id, n1)])
                (r + node_replacements blocks node_id n)
              = Inr ((done @ [(node_id, n1)]) @ nodes',
                     r + node_replacements blocks node_id n + expected_replacements blocks rest)"
        "list_all2 (same_but_patched blocks) rest nodes'"
        by blast
      with ok have "update_nodes blocks (a # rest) done r
            = Inr (done @ ((node_id, n1) # nodes'),
                   r + expected_replacements blocks (a # rest))
          \<and> list_all2 (same_but_patched blocks) (a # rest) ((node_id, n1) # nodes')"
        by (simp add: a expected_replacements_def)
      then show ?thesis by blast
    qed
  qed
qed

lemma update_nodes_no_tables:
  assumes "final_content blocks rest"
    and "\<forall>(node_id, n) \<in> set rest. \<not> tracked_table blocks node_id n"
  shows "update_nodes blocks rest done r \<noteq> Inl TypeError"
  using assms
proof (induction rest arbitrary: "done" r)
  case Nil
  then show ?case by simp
next
  case (Cons a rest)
  obtain node_id n where a: "a = (node_id, n)" by (cases a)
  from Cons.prems have fin: "\<not> is_code_placeholder blocks node_id n" "final_text n"
    and nt: "\<not> tracked_table blocks node_id n"
    and rest: "final_content blocks rest"
      "\<forall>(node_id, n) \<in> set rest. \<not> tracked_table blocks node_id n"
    by (auto simp: final_content_def a)
  from process_node_final [OF fin] nt obtain n1 k where
    "process_node blocks node_id n = Inr (Some n1, k)"
    by (auto split: if_splits)
  then show ?case using Cons.IH [OF rest] by (simp add: a)
qed

lemma list_all2_same:
  assumes "list_all2 (same_but_patched blocks) xs ys"
    and "\<forall>(node_id, n) \<in> set xs. \<not> tracked_table blocks node_id n \<and> \<not> tracked_image blocks node_id n"
  shows "ys = xs"
  using assms
  by (induction xs ys rule: list_all2_induct)
     (auto simp: same_but_patched_def prod_eq_iff)

lemma expected_zero:
  assumes "\<forall>(node_id, n) \<in> set xs. \<not> tracked_table blocks node_id n \<and> \<not> tracked_image blocks node_id n"
  shows "expected_replacements blocks xs = 0"
  using assms
  by (induction xs) (auto simp: expected_replacements_def node_replacements_def)

section \<open>Publish phase 2: running the pass on its own output\<close>

lemma dict_get_set:
  "dict_get (dict_set d k v) k' = (if k' = k then Some v else dict_get d k')"
  by (induction d) (auto simp: dict_get_def)

lemma dict_set_same: "dict_get d k = Some v \<Longrightarrow> dict_set d k v = d"
  by (induction d) (auto simp: dict_get_def split: if_splits)

lemma str_nat_nonempty: "str_nat n \<noteq> []"
  by (subst str_nat.simps) simp

lemma digit_char_inj: "a < 10 \<Longrightarrow> b < 10 \<Longrightarrow> digit_char a = digit_char b \<Longrightarrow> a = b"
proof -
  assume a: "a < 10" and b: "b < 10" and e: "digit_char a = digit_char b"
  have "inj_on (char_of :: nat \<Rightarrow> char) {0..<256}" by (rule inj_on_char_of_nat)
  moreover from a b have "48 + a \<in> {0..<256}" "48 + b \<in> {0..<256}" by simp_all
  ultimately have "48 + a = 48 + b" using e
    unfolding digit_char_def by (meson inj_onD)
  then show ?thesis by simp
qed

lemma str_nat_inj: "str_nat m = str_nat n \<Longrightarrow> m = n"
proof (induction m arbitrary: n rule: str_nat.induct)
  case (1 m)
  show ?case
  proof (cases "m < 10")
    case True
    then have m: "str_nat m = [digit_char m]" by (subst str_nat.simps) simp
    show ?thesis
    proof (cases "n < 10")
      case n: True
      then have "str_nat n = [digit_char n]" by (subst str_nat.simps) simp
      with m "1.prems" True n show ?thesis by (auto dest: digit_char_inj)
    next
      case False
      then have "str_nat n = str_nat (n div 10) @ [digit_char (n mod 10)]"
        by (subst str_nat.simps) simp
      with m "1.prems" str_nat_nonempty [of "n div 10"] show ?thesis by simp
    qed
  next
    case False
    then have m: "str_nat m = str_nat (m div 10) @ [digit_char (m mod 10)]"
      by (subst str_nat.simps) simp
    show ?thesis
    proof (cases "n < 10")
      case True
      then have "str_nat n = [digit_char n]" by (subst str_nat.simps) simp
      with m "1.prems" str_nat_nonempty [of "m div 10"] show ?thesis by simp
    next
      case n: False
      then have "str_nat n = str_nat (n div 10) @ [digit_char (n mod 10)]"
        by (subst str_nat.simps) simp
      with m "1.prems" have e: "str_nat (m div 10) = str_nat (n div 10)"
        "digit_char (m mod 10) = digit_char (n mod 10)" by simp_all
      from "1.IH" [OF False e(1)] have "m div 10 = n div 10" .
      moreover from e(2) have "m mod 10 = n mod 10" by (auto dest!: digit_char_inj [rotated 2])
      ultimately show ?thesis by (metis div_mult_mod_eq)
    qed
  qed
qed


lemma fill_row_keeps:
  "(\<And>j. k \<noteq> str_nat (ci + j)) \<Longrightarrow> dict_get (fill_row r nc ci vs) k = dict_get r k"
proof (induction vs arbitrary: r ci)
  case Nil
  then show ?case by simp
next
  case (Cons v vs)
  have k0: "k \<noteq> str_nat ci" using Cons.prems [of 0] by simp
  have "\<And>j. k \<noteq> str_nat (Suc ci + j)" using Cons.prems [of "Suc j" for j] by simp
  from Cons.IH [OF this] k0 show ?case by (simp add: dict_get_set)
qed

lemma fill_row_sets:
  "j < length vs \<Longrightarrow> ci + j < nc \<Longrightarrow>
   dict_get (fill_row r nc ci vs) (str_nat (ci + j)) = Some (cell (vs ! j))"
proof (induction vs arbitrary: r ci j)
  case Nil
  then show ?case by simp
next
  case (Cons v vs)
  show ?case
  proof (cases j)
    case 0
    have "\<And>i. str_nat ci \<noteq> str_nat (Suc ci + i)" by (auto dest: str_nat_inj)
    from fill_row_keeps [OF this] Cons.prems 0 show ?thesis
      by (simp add: dict_get_set cell_def)
  next
    case (Suc j')
    with Cons.prems have "j' < length vs" "Suc ci + j' < nc" by simp_all
    from Cons.IH [OF this] Suc show ?thesis by simp
  qed
qed

lemma fill_row_fixed:
  "(\<And>j. j < length vs \<Longrightarrow> ci + j < nc \<Longrightarrow>
         dict_get r (str_nat (ci + j)) = Some (cell (vs ! j)))
   \<Longrightarrow> fill_row r nc ci vs = r"
proof (induction vs arbitrary: ci)
  case Nil
  then show ?case by simp
next
  case (Cons v vs)
  have step: "(if ci < nc then dict_set r (str_nat ci) (JObj [(''value'', JStr v)]) else r) = r"
    using Cons.prems [of 0] by (auto simp: cell_def dict_set_same)
  have "\<And>j. j < length vs \<Longrightarrow> Suc ci + j < nc \<Longrightarrow>
         dict_get r (str_nat (Suc ci + j)) = Some (cell (vs ! j))"
    using Cons.prems [of "Suc j" for j] by simp
  from Cons.IH [OF this] step show ?case by simp
qed

lemma fill_row_idem: "fill_row (fill_row r nc ci vs) nc ci vs = fill_row r nc ci vs"
  by (rule fill_row_fixed) (rule fill_row_sets)


lemma fill_cells_Cons:
  "fill_cells (JObj c) nc i (row # rest) =
     (case row_step c nc i row of
        Some c2 \<Rightarrow> fill_cells (JObj c2) nc (Suc i) rest
      | None \<Rightarrow> Inl TypeError)"
  by (auto simp: row_step_def Let_def split: json.splits option.splits)

lemma fill_cells_other:
  "fill_cells cells nc i rs = Inr cells' \<Longrightarrow> (\<And>c. cells \<noteq> JObj c) \<Longrightarrow> cells' = cells"
proof (induction rs arbitrary: i)
  case Nil
  then show ?case by simp
next
  case (Cons row rest)
  from Cons.prems have "fill_cells cells nc (Suc i) rest = Inr cells'"
    by (cases cells) (auto split: if_splits)
  from Cons.IH [OF this Cons.prems(2)] show ?case .
qed

lemma row_step_good: "row_step c nc i row = Some c2 \<Longrightarrow> good_row c2 nc i row"
  by (auto simp: row_step_def good_row_def Let_def dict_get_set fill_row_idem
      split: if_splits option.splits json.splits)

lemma row_step_keeps:
  "row_step c nc i row = Some c2 \<Longrightarrow> k \<noteq> str_nat i \<Longrightarrow> dict_get c2 k = dict_get c k"
  by (auto simp: row_step_def Let_def dict_get_set split: if_splits option.splits json.splits)

lemma row_step_fixed: "good_row c nc i row \<Longrightarrow> row_step c nc i row = Some c"
  by (auto simp: row_step_def good_row_def Let_def dict_set_same)

lemma good_row_cong:
  "dict_get c' (str_nat idx) = dict_get c (str_nat idx) \<Longrightarrow> good_row c nc idx row
   \<Longrightarrow> good_row c' nc idx row"
  by (simp add: good_row_def)

lemma fill_cells_obj:
  "fill_cells (JObj c) nc i rs = Inr cells' \<Longrightarrow> \<exists>c'. cells' = JObj c'"
proof (induction rs arbitrary: c i)
  case Nil
  then show ?case by auto
next
  case (Cons row rest)
  then show ?case
    by (auto simp: fill_cells_Cons simp del: fill_cells.simps(2) split: option.splits)
qed

lemma fill_cells_keeps:
  "fill_cells (JObj c) nc i rs = Inr (JObj c') \<Longrightarrow> (\<And>j. k \<noteq> str_nat (i + j))
   \<Longrightarrow> dict_get c' k = dict_get c k"
proof (induction rs arbitrary: c i)
  case Nil
  then show ?case by simp
next
  case (Cons row rest)
  from Cons.prems(1) obtain c2 where s: "row_step c nc i row = Some c2"
    and r: "fill_cells (JObj c2) nc (Suc i) rest = Inr (JObj c')"
    by (auto simp: fill_cells_Cons simp del: fill_cells.simps(2) split: option.splits)
  have "\<And>j. k \<noteq> str_nat (Suc i + j)" using Cons.prems(2) [of "Suc j" for j] by simp
  from Cons.IH [OF r this] have "dict_get c' k = dict_get c2 k" .
  moreover have "k \<noteq> str_nat i" using Cons.prems(2) [of 0] by simp
  ultimately show ?case using row_step_keeps [OF s] by simp
qed

lemma fill_cells_good:
  "fill_cells (JObj c) nc i rs = Inr (JObj c') \<Longrightarrow> j < length rs
   \<Longrightarrow> good_row c' nc (i + j) (rs ! j)"
proof (induction rs arbitrary: c i j)
  case Nil
  then show ?case by simp
next
  case (Cons row rest)
  from Cons.prems(1) obtain c2 where s: "row_step c nc i row = Some c2"
    and r: "fill_cells (JObj c2) nc (Suc i) rest = Inr (JObj c')"
    by (auto simp: fill_cells_Cons simp del: fill_cells.simps(2) split: option.splits)
  show ?case
  proof (cases j)
    case 0
    have "\<And>j. str_nat i \<noteq> str_nat (Suc i + j)" by (auto dest: str_nat_inj)
    from fill_cells_keeps [OF r this] have "dict_get c' (str_nat i) = dict_get c2 (str_nat i)" .
    from good_row_cong [OF this row_step_good [OF s]] 0 show ?thesis by simp
  next
    case (Suc j')
    with Cons.prems(2) have "j' < length rest" by simp
    from Cons.IH [OF r this] Suc show ?thesis by simp
  qed
qed

lemma fill_cells_fixed:
  "(\<And>j. j < length rs \<Longrightarrow> good_row c nc (i + j) (rs ! j))
   \<Longrightarrow> fill_cells (JObj c) nc i rs = Inr (JObj c)"
proof (induction rs arbitrary: i)
  case Nil
  then show ?case by simp
next
  case (Cons row rest)
  have "good_row c nc i row" using Cons.prems [of 0] by simp
  then have s: "row_step c nc i row = Some c" by (rule row_step_fixed)
  have "\<And>j. j < length rest \<Longrightarrow> good_row c nc (Suc i + j) (rest ! j)"
    using Cons.prems [of "Suc j" for j] by simp
  from Cons.IH [OF this] s show ?case by (simp add: fill_cells_Cons del: fill_cells.simps(2))
qed

lemma fill_cells_idem:
  assumes "fill_cells cells nc i rs = Inr cells'"
  shows "fill_cells cells' nc i rs = Inr cells'"
proof (cases "\<exists>c. cells = JObj c")
  case True
  then obtain c where c: "cells = JObj c" by blast
  with assms obtain c' where c': "cells' = JObj c'"
    using fill_cells_obj by blast
  from assms c c' have "\<And>j. j < length rs \<Longrightarrow> good_row c' nc (i + j) (rs ! j)"
    by (simp add: fill_cells_good)
  then show ?thesis unfolding c' by (rule fill_cells_fixed)
next
  case False
  then have "cells' = cells" using fill_cells_other [OF assms] by blast
  with assms show ?thesis by simp
qed


lemma update_table_data:
  assumes "update_table n d b = Inr n1"
  shows "ntype n1 = ntype n \<and> nconfig n1 = nconfig n \<and> ndata n1 \<noteq> None"
  using assms by (auto simp: update_table_def Let_def split: sum.splits)

lemma update_table_idem:
  assumes "update_table n d b = Inr n1"
  shows "update_table n1 (the (ndata n1)) b = Inr n1"
proof -
  define num_cols where "num_cols = (if rows b \<noteq> [] then max_row_length (rows b) else 0)"
  define pre where "pre = (\<lambda>x. let x2 = dict_set (dict_set x ''numRows'' (JNum (int (length (rows b)))))
                                        ''numColumns'' (JNum (int num_cols))
                            in if dict_get x2 ''cells'' = None
                               then dict_set x2 ''cells'' (JObj []) else x2)"
  define cap where "cap = (\<lambda>x. case table_caption b of
                                  None \<Rightarrow> x
                                | Some c \<Rightarrow> if c \<noteq> [] then dict_set x ''caption'' (JStr c) else x)"
  have ut: "update_table m x b =
      (case fill_cells (the (dict_get (pre x) ''cells'')) num_cols 0 (rows b) of
         Inl e \<Rightarrow> Inl e
       | Inr cells \<Rightarrow> Inr (m\<lparr>ndata := Some (cap (dict_set (pre x) ''cells'' cells))\<rparr>))"
    for m x
    unfolding update_table_def Let_def pre_def cap_def num_cols_def by (rule refl)
  from assms obtain cells where
    fc: "fill_cells (the (dict_get (pre d) ''cells'')) num_cols 0 (rows b) = Inr cells"
    and n1: "n1 = n\<lparr>ndata := Some (cap (dict_set (pre d) ''cells'' cells))\<rparr>"
    unfolding ut by (auto split: sum.splits)
  define d5 where "d5 = cap (dict_set (pre d) ''cells'' cells)"
  have g_rows: "dict_get d5 ''numRows'' = Some (JNum (int (length (rows b))))"
    by (simp add: d5_def cap_def pre_def Let_def dict_get_set split: option.split)
  have g_cols: "dict_get d5 ''numColumns'' = Some (JNum (int num_cols))"
    by (simp add: d5_def cap_def pre_def Let_def dict_get_set split: option.split)
  have g_cells: "dict_get d5 ''cells'' = Some cells"
    by (simp add: d5_def cap_def dict_get_set split: option.split)
  have pre5: "pre d5 = d5"
    by (simp add: pre_def Let_def dict_set_same g_rows g_cols g_cells)
  have set5: "dict_set d5 ''cells'' cells = d5"
    by (simp add: dict_set_same g_cells)
  have cap5: "cap d5 = d5"
  proof (cases "table_caption b")
    case None
    then show ?thesis by (simp add: cap_def)
  next
    case (Some c)
    show ?thesis
    proof (cases "c = []")
      case True
      with Some show ?thesis by (simp add: cap_def)
    next
      case False
      with Some have "dict_get d5 ''caption'' = Some (JStr c)"
        by (simp add: d5_def cap_def dict_get_set)
      with Some False show ?thesis by (simp add: cap_def dict_set_same)
    qed
  qed
  from fill_cells_idem [OF fc] have fc2: "fill_cells cells num_cols 0 (rows b) = Inr cells" .
  have "update_table n1 d5 b = Inr n1"
    unfolding ut pre5 by (simp add: g_cells fc2 set5 cap5 n1 d5_def [symmetric])
  moreover have "the (ndata n1) = d5" by (simp add: n1 d5_def)
  ultimately show ?thesis by simp
qed

lemma update_image_idem:
  "update_image (fst (update_image n d b)) (the (ndata (fst (update_image n d b)))) b
     = (fst (update_image n d b), snd (update_image n d b))"
  if "ndata n = Some d"
  using that
  by (auto simp: update_image_def Let_def dict_get_set dict_set_same split: option.splits)


lemma replace_text_idem:
  assumes "replace_text n d b = Some n1"
  shows "replace_text n1 (the (ndata n1)) b = Some n1"
    and "ntype n1 = ntype n"
    and "ndata n1 \<noteq> None"
    and "dict_get (the (ndata n1)) ''text'' = Some (JStr (tb_text b))"
proof -
  from assms have ne: "\<not> is_empty_content (tb_text b)"
    by (auto simp: replace_text_def Let_def split: if_splits)
  then have t: "tb_text b \<noteq> []" "str_strip (tb_text b) \<noteq> []"
    by (simp_all add: is_empty_content_def)
  define al where "al = (\<lambda>x. case alignment b of
                        None \<Rightarrow> x
                      | Some a \<Rightarrow>
                          if a \<noteq> [] then
                            (case dict_get alignment_map a of
                               Some m \<Rightarrow> dict_set x ''textAlignment'' (JStr m)
                             | None \<Rightarrow> x)
                          else x)"
  have rt: "replace_text m x b = Some (m\<lparr>ndata := Some (al (dict_set x ''text'' (JStr (tb_text b))))\<rparr>)"
    for m x
    using ne t unfolding replace_text_def Let_def al_def by simp
  define d2 where "d2 = al (dict_set d ''text'' (JStr (tb_text b)))"
  from assms have n1: "n1 = n\<lparr>ndata := Some d2\<rparr>" by (simp add: rt d2_def)
  have g: "dict_get d2 ''text'' = Some (JStr (tb_text b))"
    by (simp add: d2_def al_def dict_get_set split: option.split)
  have al2: "al d2 = d2"
    by (auto simp: d2_def al_def dict_get_set dict_set_same split: option.split)
  have "al (dict_set d2 ''text'' (JStr (tb_text b))) = d2"
    by (simp add: dict_set_same g al2)
  then show "replace_text n1 (the (ndata n1)) b = Some n1"
    by (simp add: rt n1)
  show "ntype n1 = ntype n" "ndata n1 \<noteq> None" by (simp_all add: n1)
  show "dict_get (the (ndata n1)) ''text'' = Some (JStr (tb_text b))" by (simp add: n1 g)
qed

lemma update_image_meta:
  "ntype (fst (update_image n d b)) = ntype n"
  "ndata n = Some d \<Longrightarrow> ndata (fst (update_image n d b)) \<noteq> None"
  by (auto simp: update_image_def Let_def)

lemma process_node_idem:
  assumes "process_node blocks node_id n = Inr (Some n1, k)"
  shows "\<exists>k'. process_node blocks node_id n1 = Inr (Some n1, k')"
proof (cases "is_code_placeholder blocks node_id n")
  case True
  then obtain b where b: "blocks node_id = Some (CodeBlock b)"
    by (auto simp: is_code_placeholder_def split: option.splits content_block.splits)
  with True assms have "n1 = to_code_node n b" by (simp add: process_node_def)
  then have "ntype n1 = Some ''code''" by (simp add: to_code_node_def Let_def)
  then show ?thesis
    by (simp add: process_node_def is_code_placeholder_def has_text_def)
next
  case ncp: False
  show ?thesis
  proof (cases "has_text n")
    case True
    with ncp assms obtain t where t: "dict_get (the (ndata n)) ''text'' = Some (JStr t)"
      by (auto simp: process_node_def split: option.splits json.splits)
    show ?thesis
    proof (cases "startswith t ''PLACEHOLDER_TEXT_'' \<and> (\<exists>b. blocks node_id = Some (TextBlock b))")
      case replaced: True
      then obtain b where b: "blocks node_id = Some (TextBlock b)" by blast
      with ncp True t replaced assms have r: "replace_text n (the (ndata n)) b = Some n1"
        by (auto simp: process_node_def split: option.splits)
      note ri = replace_text_idem [OF r]
      from True ri have ht: "has_text n1" by (auto simp: has_text_def)
      from b have nc1: "\<not> is_code_placeholder blocks node_id n1"
        by (simp add: is_code_placeholder_def)
      show ?thesis
        using nc1 ht ri(1,4) b by (simp add: process_node_def)
    next
      case False
      with ncp True t assms have "n1 = n"
        by (auto simp: process_node_def split: option.splits content_block.splits if_splits)
      with assms show ?thesis by blast
    qed
  next
    case nht: False
    show ?thesis
    proof (cases "tracked_table blocks node_id n")
      case True
      then obtain b where b: "blocks node_id = Some (TableBlock b)"
        by (auto simp: tracked_table_def split: option.splits content_block.splits)
      from True have ty: "ntype n = Some ''table''" "ndata n \<noteq> None"
        by (simp_all add: tracked_table_def)
      with ncp nht b assms have u: "update_table n (the (ndata n)) b = Inr n1"
        by (auto simp: process_node_def split: sum.splits)
      from update_table_data [OF u] ty have ty1: "ntype n1 = Some ''table''" "ndata n1 \<noteq> None"
        by simp_all
      then have "\<not> is_code_placeholder blocks node_id n1" "\<not> has_text n1"
        by (simp_all add: is_code_placeholder_def has_text_def)
      with ty1 b update_table_idem [OF u] show ?thesis
        by (simp add: process_node_def)
    next
      case nt: False
      show ?thesis
      proof (cases "tracked_image blocks node_id n")
        case True
        then obtain b where b: "blocks node_id = Some b"
          by (auto simp: tracked_image_def)
        from True obtain d where ty: "ntype n = Some ''image''" "ndata n = Some d"
          by (auto simp: tracked_image_def)
        with ncp nht b assms have n1: "n1 = fst (update_image n d b)"
          by (auto simp: process_node_def split_beta)
        from update_image_meta [of n d b] ty n1
        have ty1: "ntype n1 = Some ''image''" "ndata n1 \<noteq> None" by simp_all
        then have "\<not> is_code_placeholder blocks node_id n1" "\<not> has_text n1"
          by (simp_all add: is_code_placeholder_def has_text_def)
        with ty1 b update_image_idem [OF ty(2), of b] n1 show ?thesis
          by (simp add: process_node_def split_beta)
      next
        case False
        with ncp nht nt assms have "n1 = n"
          by (auto simp: process_node_def tracked_table_def tracked_image_def
              split: option.splits content_block.splits if_splits)
        with assms show ?thesis by blast
      qed
    qed
  qed
qed

lemma update_nodes_split:
  "update_nodes blocks rest done r = Inr (res, r1) \<Longrightarrow>
   \<exists>nodes1. res = done @ nodes1
      \<and> list_all2 (\<lambda>old new. fst new = fst old
            \<and> (\<exists>k. process_node blocks (fst old) (snd old) = Inr (Some (snd new), k)))
          rest nodes1"
proof (induction rest arbitrary: "done" r)
  case Nil
  then show ?case by simp
next
  case (Cons a rest)
  obtain node_id n where a: "a = (node_id, n)" by (cases a)
  from Cons.prems obtain n1 k where
    p: "process_node blocks node_id n = Inr (Some n1, k)"
    and u: "update_nodes blocks rest (done @ [(node_id, n1)]) (r + k) = Inr (res, r1)"
    by (auto simp: a split: sum.splits option.splits)
  from Cons.IH [OF u] obtain nodes1 where
    "res = (done @ [(node_id, n1)]) @ nodes1"
    "list_all2 (\<lambda>old new. fst new = fst old
            \<and> (\<exists>k. process_node blocks (fst old) (snd old) = Inr (Some (snd new), k)))
          rest nodes1"
    by blast
  with p a show ?case by (intro exI [of _ "(node_id, n1) # nodes1"]) auto
qed

lemma update_nodes_again:
  "list_all2 (\<lambda>old new. fst new = fst old
        \<and> (\<exists>k. process_node blocks (fst old) (snd old) = Inr (Some (snd new), k)))
      olds news \<Longrightarrow>
   \<exists>r2. update_nodes blocks news done r = Inr (done @ news, r2)"
proof (induction olds news arbitrary: "done" r rule: list_all2_induct)
  case Nil
  then show ?case by simp
next
  case (Cons old olds new news)
  obtain node_id n1 where new: "new = (node_id, n1)" by (cases new)
  from Cons.hyps(1) new obtain k where
    "process_node blocks node_id (snd old) = Inr (Some n1, k)" by auto
  from process_node_idem [OF this] obtain k' where
    k': "process_node blocks node_id n1 = Inr (Some n1, k')" by blast
  from Cons.IH [of "done @ [(node_id, n1)]" "r + k'"] obtain r2 where
    "update_nodes blocks news (done @ [(node_id, n1)]) (r + k')
       = Inr ((done @ [(node_id, n1)]) @ news, r2)" by blast
  with k' show ?case by (simp add: new)
qed

lemma update_storymap_content_idem:
  assumes "update_storymap_content nodes blocks = Inr (nodes1, r1)"
  shows "\<exists>r2. update_storymap_content nodes1 blocks = Inr (nodes1, r2)"
proof -
  from assms update_nodes_split [of blocks nodes "[]" 0 nodes1 r1]
  have "list_all2 (\<lambda>old new. fst new = fst old
            \<and> (\<exists>k. process_node blocks (fst old) (snd old) = Inr (Some (snd new), k)))
          nodes nodes1"
    by (simp add: update_storymap_content_def)
  from update_nodes_again [OF this, of "[]" 0] show ?thesis
    by (simp add: update_storymap_content_def)
qed

text \<open>
  Claim C5, as amended. For every remote document whose nodes already hold final content
  (no text node carries a placeholder marker and none is still tracked as the placeholder
  of a code block), the content-patch pass deletes no node: it never fails with the error
  that a deletion causes, and when it returns, the node ids are the ones it was given.
  It performs no replacement on text and code nodes, and every node that is not a
  tracked table node or a tracked image node is left as it was; a table node is tracked
  when the placeholder map holds a table block for it, an image node when the map holds
  a block of any type for it. The replacement counter is not zero in general: every
  tracked table node is written and counted again, and so is every caption and float
  alignment that the block of a tracked image node carries. A document without tracked
  table nodes is always patched without error, and a document without tracked table and
  image nodes comes back unchanged with zero replacements. A document that an earlier
  run of the pass has returned is patched without error and comes back with an unchanged
  node map.
\<close>

theorem patch_pass_on_final_content:
  assumes "final_content blocks nodes"
  shows "update_storymap_content nodes blocks \<noteq> Inl RuntimeError
     \<and> update_storymap_content nodes blocks \<noteq> Inl AttributeError
     \<and> (\<forall>nodes' r. update_storymap_content nodes blocks = Inr (nodes', r) \<longrightarrow>
           r = expected_replacements blocks nodes
           \<and> list_all2 (same_but_patched blocks) nodes nodes')
     \<and> ((\<forall>(node_id, n) \<in> set nodes. \<not> tracked_table blocks node_id n) \<longrightarrow>
           (\<exists>nodes' r. update_storymap_content nodes blocks = Inr (nodes', r)))
     \<and> ((\<forall>(node_id, n) \<in> set nodes.
            \<not> tracked_table blocks node_id n \<and> \<not> tracked_image blocks node_id n) \<longrightarrow>
           update_storymap_content nodes blocks = Inr (nodes, 0))
     \<and> ((\<exists>nodes0 r0. update_storymap_content nodes0 blocks = Inr (nodes, r0)) \<longrightarrow>
           update_storymap_content nodes blocks
             = Inr (nodes, expected_replacements blocks nodes))"
proof -
  let ?res = "update_storymap_content nodes blocks"
  from update_nodes_final [OF assms, of "[]" 0]
  have main: "?res = Inl TypeError
     \<or> (\<exists>nodes'. ?res = Inr (nodes', expected_replacements blocks nodes)
          \<and> list_all2 (same_but_patched blocks) nodes nodes')"
    by (simp add: update_storymap_content_def)
  then have a: "?res \<noteq> Inl RuntimeError" and b: "?res \<noteq> Inl AttributeError"
    by auto
  from main have c: "\<forall>nodes' r. ?res = Inr (nodes', r) \<longrightarrow>
           r = expected_replacements blocks nodes
           \<and> list_all2 (same_but_patched blocks) nodes nodes'"
    by auto
  have d: "\<exists>nodes' r. ?res = Inr (nodes', r)"
    if "\<forall>(node_id, n) \<in> set nodes. \<not> tracked_table blocks node_id n"
  proof -
    from update_nodes_no_tables [OF assms that, of "[]" 0]
    have "?res \<noteq> Inl TypeError" by (simp add: update_storymap_content_def)
    with main show ?thesis by blast
  qed
  have e: "?res = Inr (nodes, 0)"
    if nt: "\<forall>(node_id, n) \<in> set nodes.
            \<not> tracked_table blocks node_id n \<and> \<not> tracked_image blocks node_id n"
  proof -
    from nt have "\<forall>(node_id, n) \<in> set nodes. \<not> tracked_table blocks node_id n" by auto
    from d [OF this] c obtain nodes' where
      r: "?res = Inr (nodes', expected_replacements blocks nodes)"
      and l: "list_all2 (same_but_patched blocks) nodes nodes'"
      by blast
    from list_all2_same [OF l nt] expected_zero [OF nt] r show ?thesis by simp
  qed
  have f: "?res = Inr (nodes, expected_replacements blocks nodes)"
    if "\<exists>nodes0 r0. update_storymap_content nodes0 blocks = Inr (nodes, r0)"
  proof -
    from that update_storymap_content_idem obtain r2 where "?res = Inr (nodes, r2)"
      by blast
    with c show ?thesis by simp
  qed
  from a b c d e f show ?thesis by blast
qed

theorem patch_pass_on_final_content_witness:
  "update_storymap_content [(''n0'', sample_text_node)] sample_text_blocks
     = Inr ([(''n0'', sample_text_node)], 0)"
proof -
  have f: "final_content sample_text_blocks [(''n0'', sample_text_node)]"
    by code_simp
  have nt: "\<forall>(node_id, n) \<in> set [(''n0'', sample_text_node)].
          \<not> tracked_table sample_text_blocks node_id n
          \<and> \<not> tracked_image sample_text_blocks node_id n"
    by (simp add: tracked_table_def tracked_image_def sample_text_node_def)
  from patch_pass_on_final_content [OF f] nt show ?thesis by blast
qed

text \<open>
  The claim as the specification states it promises zero replacements. A document whose
  single table node already shows the content of its block holds final content; the pass
  leaves the node as it is and still counts one replacement.
\<close>

theorem table_patched_again_counterexample:
  "final_content sample_table_blocks [(''n0'', sample_table_node)]
   \<and> update_storymap_content [(''n0'', sample_table_node)] sample_table_blocks
       = Inr ([(''n0'', sample_table_node)], 1)"
  by code_simp

text \<open>
  Two documents of an unusual shape. An image node that the placeholder map tracks with
  a captioned table block receives the caption, and the pass counts one replacement. A
  cells value that is an array holding the row key is left alone when the row of the
  block is empty, and raises \<open>TypeError\<close> when the row has a cell to write.
\<close>

lemma image_node_tracked_by_table_block:
  "final_content sample_caption_blocks [(''n0'', sample_image_node)]
   \<and> update_storymap_content [(''n0'', sample_image_node)] sample_caption_blocks
       = Inr ([(''n0'', sample_image_node\<lparr>ndata := Some [(''caption'', JStr ''Figure'')]\<rparr>)], 1)"
  by code_simp

lemma array_cells_with_empty_row:
  "fill_cells (JArr [JStr ''0'']) 0 0 [[]] = Inr (JArr [JStr ''0''])
   \<and> fill_cells (JArr [JStr ''0'']) 1 0 [[''x'']] = Inl TypeError"
  by code_simp

section \<open>Code language detector: the four sample snippets\<close>

lemma detect_sample_sql: "detect_code_language sample_sql = ''sql''"
  by code_simp

lemma detect_sample_json: "detect_code_language sample_json = ''json''"
  by code_simp

lemma detect_sample_python: "detect_code_language sample_python = ''py''"
  by code_simp

lemma detect_sample_plain: "detect_code_language sample_plain = ''txt''"
  by code_simp

text \<open>
  Claim C7. The code language detector returns \<open>sql\<close> for
  \<open>SELECT * FROM t WHERE id=1\<close>, \<open>json\<close> for \<open>{"a":1}\<close>, \<open>py\<close> for the two lines
  \<open>def f():\<close> and \<open>    pass\<close>, and the plain-text tag \<open>txt\<close> for \<open>hello world\<close>.
\<close>

theorem detect_code_language_samples:
  "detect_code_language ''SELECT * FROM t WHERE id=1'' = ''sql''
   \<and> detect_code_language [CHR ''{'', CHR 0x22, CHR ''a'', CHR 0x22, CHR '':'', CHR ''1'', CHR ''}'']
       = ''json''
   \<and> detect_code_language (''def f():'' @ [CHR 0x0A] @ ''    pass'') = ''py''
   \<and> detect_code_language ''hello world'' = ''txt''"
  using detect_sample_sql detect_sample_json detect_sample_python detect_sample_plain
  by (simp add: sample_sql_def sample_json_def sample_python_def sample_plain_def dq_def)

section \<open>Block classifier: the order of the cascade\<close>







lemma bit_length_bounds:
  "0 < a \<Longrightarrow> 2 ^ (bit_length a - 1) \<le> a \<and> a < 2 ^ bit_length a"
proof (induction a rule: bit_length.induct)
  case (1 n)
  from "1.prems" have bl: "bit_length n = Suc (bit_length (n div 2))"
    by (subst bit_length.simps) simp
  show ?case
  proof (cases "n div 2 \<le> 0")
    case True
    with "1.prems" have "n = 1" by linarith
    moreover have "bit_length (0::int) = 0" by (subst bit_length.simps) simp
    ultimately show ?thesis using bl by simp
  next
    case False
    then have pos: "0 < n div 2" by simp
    from "1.prems" have "\<not> n \<le> 0" by simp
    from "1.IH" [OF this pos]
    have lo: "2 ^ (bit_length (n div 2) - 1) \<le> n div 2"
      and hi: "n div 2 < 2 ^ bit_length (n div 2)" by simp_all
    from pos have "bit_length (n div 2) = Suc (bit_length (n div 2 div 2))"
      by (subst bit_length.simps) simp
    then have "(2::int) ^ bit_length (n div 2) = 2 * 2 ^ (bit_length (n div 2) - 1)"
      by simp
    with lo have "2 ^ bit_length (n div 2) \<le> 2 * (n div 2)" by simp
    also have "\<dots> \<le> n" by simp
    finally have a: "2 ^ (bit_length n - 1) \<le> n" by (simp add: bl)
    from hi have "n div 2 + 1 \<le> 2 ^ bit_length (n div 2)" by simp
    then have "2 * (n div 2) + 2 \<le> 2 * 2 ^ bit_length (n div 2)" by simp
    moreover have "n < 2 * (n div 2) + 2" by linarith
    ultimately have "n < 2 ^ bit_length n" by (simp add: bl)
    with a show ?thesis by simp
  qed
qed

lemma round_to_double_large:
  assumes "2 ^ 1025 \<le> a"
  shows "2 ^ 1025 \<le> round_to_double a"
proof -
  have p: "(2::int) ^ 53 \<le> 2 ^ 1025" by (rule power_increasing) simp_all
  with assms have big: "\<not> a < 2 ^ 53" and pos: "0 < a" by simp_all
  define k where "k = bit_length a - 53"
  define q where "q = a div 2 ^ k"
  from bit_length_bounds [OF pos] have lo: "2 ^ (bit_length a - 1) \<le> a"
    and hi: "a < 2 ^ bit_length a" by simp_all
  from assms hi have lt: "(2::int) ^ 1025 < 2 ^ bit_length a" by (rule le_less_trans)
  have bl: "1025 < bit_length a"
  proof (rule ccontr)
    assume "\<not> 1025 < bit_length a"
    then have "bit_length a \<le> 1025" by simp
    then have "(2::int) ^ bit_length a \<le> 2 ^ 1025" by (rule power_increasing) simp
    with lt show False by linarith
  qed
  then have k: "bit_length a - 1 = 52 + k" and k2: "973 \<le> k" by (simp_all add: k_def)
  have "(2::int) ^ 52 = 2 ^ (52 + k) div 2 ^ k" by (simp add: power_add)
  also have "\<dots> \<le> a div 2 ^ k" using lo unfolding k by (rule zdiv_mono1) simp
  finally have q: "2 ^ 52 \<le> q" by (simp add: q_def)
  have p973: "(2::int) ^ 973 \<le> 2 ^ k" using k2 by (rule power_increasing) simp
  have "(2::int) ^ 1025 = 2 ^ 52 * 2 ^ 973" by (simp add: power_add [symmetric])
  also have "\<dots> \<le> 2 ^ 52 * 2 ^ k" using p973 by (rule mult_left_mono) simp
  also have "\<dots> \<le> q * 2 ^ k" using q by (rule mult_right_mono) simp
  finally have base: "2 ^ 1025 \<le> q * 2 ^ k" .
  have "q * 2 ^ k \<le> (q + 1) * 2 ^ k" by (simp add: mult_right_mono)
  with base have "2 ^ 1025 \<le> (q + 1) * 2 ^ k" by linarith
  with base big show ?thesis
    unfolding round_to_double_def Let_def k_def [symmetric] q_def [symmetric]
    by (simp del: power_increasing_iff)
qed

lemma true_div2_overflow: "2 ^ 1025 \<le> \<bar>n\<bar> \<Longrightarrow> true_div2 n = Inl OverflowError"
  using round_to_double_large [of "\<bar>n\<bar>"] by (simp add: true_div2_def)








lemma contains_empty: "sub \<noteq> [] \<Longrightarrow> \<not> contains [] sub"
  by simp






text \<open>
  Two paragraphs at the edge of floating point. Runs set in \<open>2 ^ 53\<close> and \<open>2 ^ 53 + 1\<close>
  half-points have the same size after the division, so the paragraph has a font size
  and is a heading2. A run set in \<open>10 ^ 400\<close> half-points makes the division overflow.
\<close>

lemma huge_sizes_collapse:
  "get_font_size sample_huge_sizes = Inr (Some (2 ^ 52))
   \<and> process_docx_paragraph sample_huge_sizes Map.empty
       = Block (create_text_block ''h2'' ''HelloWorld'' None)"
  by code_simp

lemma sized_run_overflow:
  assumes "2 ^ 1025 \<le> \<bar>n\<bar>"
  shows "get_font_size
           (empty_paragraph\<lparr>p_runs := [(plain_run ''Hello'')\<lparr>run_sz := Some (IntVal n)\<rparr>]\<rparr>)
         = Inl OverflowError
     \<and> process_docx_paragraph
           (empty_paragraph\<lparr>p_runs := [(plain_run ''Hello'')\<lparr>run_sz := Some (IntVal n)\<rparr>]\<rparr>)
           Map.empty
         = Raised OverflowError"
proof -
  let ?p = "empty_paragraph\<lparr>p_runs := [(plain_run ''Hello'')\<lparr>run_sz := Some (IntVal n)\<rparr>]\<rparr>"
  from assms have "true_div2 n = Inl OverflowError" by (rule true_div2_overflow)
  then have f: "get_font_size ?p = Inl OverflowError"
    by (simp add: get_font_size_def)
  have d: "p_drawing ?p = None"
    by (simp add: empty_paragraph_def)
  have x: "extract_formatted_text ?p Map.empty = (''Hello'', None)"
    by code_simp
  have t: "''Hello'' \<noteq> []" "str_strip ''Hello'' \<noteq> []"
    by code_simp+
  have o: "by_outline_level ?p ''Hello'' None = None"
    by (simp add: by_outline_level_def get_paragraph_outline_level_def empty_paragraph_def)
  have n: "by_style_number ?p ''Hello'' None = None"
    by (simp add: by_style_number_def style_of_def empty_paragraph_def)
  have b: "by_font_size ?p ''Hello'' None = Inl OverflowError"
    by (simp add: by_font_size_def check_heading_formatting_def f)
  have "process_docx_paragraph ?p Map.empty = Raised OverflowError"
    by (simp add: process_docx_paragraph_def d x t o n b)
  with f show ?thesis by blast
qed

lemma overflow_size_raises:
  "get_font_size sample_overflow_size = Inl OverflowError
   \<and> process_docx_paragraph sample_overflow_size Map.empty = Raised OverflowError"
  unfolding sample_overflow_size_def by (rule sized_run_overflow) simp

section \<open>Empty paragraphs that carry an alignment\<close>

lemma no_text_no_break_parts:
  assumes "\<not> list_ex run_has_text (p_runs p)" and "\<not> list_ex run_br (p_runs p)"
  shows "text_parts rels p = []"
proof -
  have "run_text r = []" if "r \<in> set (p_runs p)" for r
  proof -
    from that assms have nt: "\<not> run_has_text r" and nb: "\<not> run_br r"
      by (auto simp: list_ex_iff)
    from nt have "\<forall>t \<in> set (run_texts r). t = None"
      by (auto simp: run_has_text_def list_ex_iff)
    then have "concat (map (\<lambda>t. case t of None \<Rightarrow> [] | Some x \<Rightarrow> x) (run_texts r)) = []"
      by (induction "run_texts r") auto
    with nb show ?thesis by (simp add: run_text_def)
  qed
  then have "filter (\<lambda>r. run_text r \<noteq> []) (p_runs p) = []"
    by (simp add: filter_empty_conv)
  then show ?thesis by (simp add: text_parts_def)
qed

lemma strip_single_space: "str_strip '' '' = []"
  by code_simp

text \<open>
  Claim C10, as amended. An empty paragraph that carries an explicit alignment and holds
  no drawing is not dropped. For every paragraph none of whose text elements has text and
  whose justification element has a non-empty value, text extraction returns a single
  space together with that alignment; if the paragraph holds no drawing, the classifier
  emits a paragraph text block with empty text and that alignment (a paragraph with a
  drawing goes to the image resolver instead). A paragraph without a drawing and without
  alignment whose runs hold neither text nor line breaks yields none.
\<close>

theorem aligned_empty_paragraph_kept:
  "(\<not> list_ex run_has_text (p_runs p) \<and> p_jc p = Some (Some v) \<and> v \<noteq> [] \<longrightarrow>
      extract_formatted_text p rels = ('' '', Some v)
      \<and> (p_drawing p = None \<longrightarrow>
            process_docx_paragraph p rels = Block (create_text_block ''paragraph'' [] (Some v))))
   \<and> (\<not> list_ex run_has_text (p_runs p) \<and> \<not> list_ex run_br (p_runs p)
        \<and> paragraph_alignment p = None \<and> p_drawing p = None \<longrightarrow>
      process_docx_paragraph p rels = NoBlock)
   \<and> (p_drawing p = Some d \<longrightarrow> process_docx_paragraph p rels = FromImageResolver d)"
proof -
  have a: "extract_formatted_text p rels = ('' '', Some v)
      \<and> (p_drawing p = None \<longrightarrow>
            process_docx_paragraph p rels = Block (create_text_block ''paragraph'' [] (Some v)))"
    if "\<not> list_ex run_has_text (p_runs p)" "p_jc p = Some (Some v)" "v \<noteq> []"
  proof -
    from that have al: "paragraph_alignment p = Some v"
      by (simp add: paragraph_alignment_def)
    with that(1) have x: "extract_formatted_text p rels = ('' '', Some v)"
      by (simp add: extract_formatted_text_def)
    then show ?thesis
      using that(3) by (simp add: process_docx_paragraph_def strip_single_space)
  qed
  have b: "process_docx_paragraph p rels = NoBlock"
    if "\<not> list_ex run_has_text (p_runs p)" "\<not> list_ex run_br (p_runs p)"
      "paragraph_alignment p = None" "p_drawing p = None"
  proof -
    from no_text_no_break_parts [OF that(1,2)] that(3)
    have "extract_formatted_text p rels = ([], None)"
      by (simp add: extract_formatted_text_def)
    with that(4) show ?thesis by (simp add: process_docx_paragraph_def)
  qed
  have c: "p_drawing p = Some d \<longrightarrow> process_docx_paragraph p rels = FromImageResolver d"
    by (simp add: process_docx_paragraph_def)
  from a b c show ?thesis by blast
qed

theorem aligned_empty_paragraph_kept_witness:
  "extract_formatted_text sample_centred_empty Map.empty = ('' '', Some ''center'')
   \<and> process_docx_paragraph sample_centred_empty Map.empty
       = Block (create_text_block ''paragraph'' [] (Some ''center''))
   \<and> process_docx_paragraph empty_paragraph Map.empty = NoBlock"
proof -
  have h1: "\<not> list_ex run_has_text (p_runs sample_centred_empty)"
    "p_jc sample_centred_empty = Some (Some ''center'')" "''center'' \<noteq> []"
    "p_drawing sample_centred_empty = None"
    by (simp_all add: sample_centred_empty_def empty_paragraph_def)
  have h2: "\<not> list_ex run_has_text (p_runs empty_paragraph)"
    "\<not> list_ex run_br (p_runs empty_paragraph)"
    "paragraph_alignment empty_paragraph = None" "p_drawing empty_paragraph = None"
    by (simp_all add: empty_paragraph_def paragraph_alignment_def)
  from aligned_empty_paragraph_kept [of sample_centred_empty "''center''" Map.empty] h1
  have a: "extract_formatted_text sample_centred_empty Map.empty = ('' '', Some ''center'')
   \<and> process_docx_paragraph sample_centred_empty Map.empty
       = Block (create_text_block ''paragraph'' [] (Some ''center''))"
    by blast
  from aligned_empty_paragraph_kept [of empty_paragraph _ Map.empty] h2
  have "process_docx_paragraph empty_paragraph Map.empty = NoBlock"
    by blast
  with a show ?thesis by blast
qed

text \<open>
  The claim as stated covers every paragraph without text. A centred paragraph that
  holds only a drawing has no text and a justification element, yet the classifier hands
  it to the image resolver and emits no paragraph block. A paragraph without alignment
  whose only run is bold and holds a line break has no text either, yet it is not dropped:
  the markup around the line break makes the extracted text non-blank.
\<close>

theorem centred_drawing_counterexample:
  "extract_formatted_text sample_centred_drawing Map.empty = ('' '', Some ''center'')
   \<and> process_docx_paragraph sample_centred_drawing Map.empty
       = FromImageResolver sample_plain_drawing
   \<and> paragraph_alignment sample_bold_break = None
   \<and> process_docx_paragraph sample_bold_break Map.empty
       = Block (create_text_block ''h3'' (''<strong>'' @ [CHR 0x0A] @ ''</strong>'') None)"
  by code_simp

end
